theory Spec2Isabelle
  imports Main "HOL-Library.Sublist" "HOL-Library.Word"
begin

section \<open>Python values used by orcanizator.py\<close>

text \<open>
  A Python \<open>str\<close> is a sequence of Unicode code points (0 to 0x10FFFF, lone surrogates
  included), so it is modelled as a list of naturals; \<open>lit\<close> turns an ASCII literal of
  the source into such a list. Bytes on disk are 8-bit words. Exceptions are values of
  \<open>error\<close>; a computation that may raise returns \<open>error + 'a\<close>.
\<close>

type_synonym pystr = "nat list"
type_synonym byte = "8 word"

definition lit :: "string \<Rightarrow> pystr" where
  "lit s = map of_char s"

datatype error =
    FileNotFoundError
  | UnicodeEncodeError
  | UnicodeDecodeError
  | UnicodeError
  | IndexError
  | ValueError
  | UnboundLocalError
  | RDKitError
  | OSError

definition ebind :: "error + 'a \<Rightarrow> ('a \<Rightarrow> error + 'b) \<Rightarrow> error + 'b" where
  "ebind m f = (case m of Inl e \<Rightarrow> Inl e | Inr x \<Rightarrow> f x)"

text \<open>\<open>xs[i]\<close> for a non-negative literal index: IndexError out of range.\<close>

definition item :: "'a list \<Rightarrow> nat \<Rightarrow> error + 'a" where
  "item xs i = (if i < length xs then Inr (xs ! i) else Inl IndexError)"

text \<open>\<open>p in line\<close> on strings: \<open>p\<close> occurs in \<open>line\<close> as a contiguous run.\<close>

fun py_in :: "pystr \<Rightarrow> pystr \<Rightarrow> bool" where
  "py_in p [] = (p = [])"
| "py_in p (c # cs) = (prefix p (c # cs) \<or> py_in p cs)"

text \<open>
  \<open>line.split()\<close>: the maximal runs of non-whitespace characters, in order. The
  whitespace code points are those of \<open>str.isspace\<close>.
\<close>

definition is_space :: "nat \<Rightarrow> bool" where
  "is_space c \<longleftrightarrow>
     (9 \<le> c \<and> c \<le> 13) \<or> (28 \<le> c \<and> c \<le> 32) \<or> c = 133 \<or> c = 160 \<or> c = 5760 \<or>
     (8192 \<le> c \<and> c \<le> 8202) \<or> c = 8232 \<or> c = 8233 \<or> c = 8239 \<or> c = 8287 \<or> c = 12288"

fun split_from :: "pystr \<Rightarrow> pystr \<Rightarrow> pystr list" where
  "split_from cur [] = (if cur = [] then [] else [cur])"
| "split_from cur (c # cs) =
     (if is_space c then (if cur = [] then split_from [] cs else cur # split_from [] cs)
      else split_from (cur @ [c]) cs)"

definition split :: "pystr \<Rightarrow> pystr list" where
  "split line = split_from [] line"

subsection \<open>The test \<open>float(tok) > 0\<close>\<close>

text \<open>
  \<open>float\<close> accepts an optional sign followed by \<open>inf\<close>, \<open>infinity\<close> or \<open>nan\<close> (in any
  case), or by a decimal number: digits with single underscores between them, an
  optional point, an optional exponent. Anything else raises ValueError. The result is
  the nearest double, ties to even, so a positive decimal compares greater than zero
  exactly when it exceeds half the least subnormal, \<open>2 ^ -1075\<close>; an overflow gives
  infinity. The function is only ever applied to a token of \<open>split\<close>, which holds no
  whitespace, so the stripping that \<open>float\<close> does first is left out. Digits are the
  ASCII ones: the decimal digits of other scripts, which \<open>float\<close> also reads, have
  their table outside this repository, and a token carrying one is rejected here.
\<close>

definition is_digit :: "nat \<Rightarrow> bool" where
  "is_digit c \<longleftrightarrow> 48 \<le> c \<and> c \<le> 57"

definition ascii_lower :: "nat \<Rightarrow> nat" where
  "ascii_lower c = (if 65 \<le> c \<and> c \<le> 90 then c + 32 else c)"

fun more_digits :: "pystr \<Rightarrow> nat list \<times> pystr" where
  "more_digits [] = ([], [])"
| "more_digits (c # cs) =
     (if is_digit c then (case more_digits cs of (ds, r) \<Rightarrow> ((c - 48) # ds, r))
      else if c = 95 then
        (case cs of
           [] \<Rightarrow> ([], c # cs)
         | d # cs' \<Rightarrow>
             if is_digit d then (case more_digits cs' of (ds, r) \<Rightarrow> ((d - 48) # ds, r))
             else ([], c # cs))
      else ([], c # cs))"

definition digitpart :: "pystr \<Rightarrow> (nat list \<times> pystr) option" where
  "digitpart s =
     (case s of
        [] \<Rightarrow> None
      | c # cs \<Rightarrow>
          if is_digit c then (case more_digits cs of (ds, r) \<Rightarrow> Some ((c - 48) # ds, r))
          else None)"

text \<open>\<open>number ::= [digitpart] "." digitpart | digitpart ["."]\<close>: integer digits,
  fraction digits and the rest of the input.\<close>

definition number :: "pystr \<Rightarrow> (nat list \<times> nat list \<times> pystr) option" where
  "number s =
     (case digitpart s of
        Some (ip, r) \<Rightarrow>
          (case r of
             [] \<Rightarrow> Some (ip, [], r)
           | c # r' \<Rightarrow>
               if c = 46 then
                 (case digitpart r' of
                    Some (fp, r'') \<Rightarrow> Some (ip, fp, r'')
                  | None \<Rightarrow> Some (ip, [], r'))
               else Some (ip, [], r))
      | None \<Rightarrow>
          (case s of
             [] \<Rightarrow> None
           | c # r \<Rightarrow>
               if c = 46 then
                 (case digitpart r of Some (fp, r') \<Rightarrow> Some ([], fp, r') | None \<Rightarrow> None)
               else None))"

definition digits_value :: "nat list \<Rightarrow> nat" where
  "digits_value ds = foldl (\<lambda>a d. 10 * a + d) 0 ds"

text \<open>\<open>exponent ::= ("e" | "E") [sign] digitpart\<close>, up to the end of the token; no
  exponent is exponent zero.\<close>

definition exponent :: "pystr \<Rightarrow> int option" where
  "exponent s =
     (case s of
        [] \<Rightarrow> Some 0
      | c # r \<Rightarrow>
          if c = 101 \<or> c = 69 then
            (let neg = (case r of [] \<Rightarrow> False | d # _ \<Rightarrow> d = 45);
                 r' = (case r of [] \<Rightarrow> r | d # t \<Rightarrow> if d = 43 \<or> d = 45 then t else r)
             in case digitpart r' of
                  Some (ds, []) \<Rightarrow> Some (if neg then - int (digits_value ds) else int (digits_value ds))
                | _ \<Rightarrow> None)
          else None)"

text \<open>Whether the decimal \<open>m * 10 ^ k\<close> rounds to a double greater than zero.\<close>

definition rounds_positive :: "nat \<Rightarrow> int \<Rightarrow> bool" where
  "rounds_positive m k \<longleftrightarrow> m \<noteq> 0 \<and> (0 \<le> k \<or> 10 ^ nat (- k) < m * 2 ^ 1075)"

definition float_gt_zero :: "pystr \<Rightarrow> error + bool" where
  "float_gt_zero tok =
     (let neg = (case tok of [] \<Rightarrow> False | c # _ \<Rightarrow> c = 45);
          s = (case tok of [] \<Rightarrow> tok | c # t \<Rightarrow> if c = 43 \<or> c = 45 then t else tok);
          lw = map ascii_lower s
      in if lw = lit ''inf'' \<or> lw = lit ''infinity'' then Inr (\<not> neg)
         else if lw = lit ''nan'' then Inr False
         else
           (case number s of
              None \<Rightarrow> Inl ValueError
            | Some (ip, fp, r) \<Rightarrow>
                (case exponent r of
                   None \<Rightarrow> Inl ValueError
                 | Some e \<Rightarrow>
                     Inr (\<not> neg \<and> rounds_positive (digits_value (ip @ fp)) (e - int (length fp))))))"

subsection \<open>The \<open>utf-16\<close> codec\<close>

text \<open>
  \<open>str.encode("utf-16")\<close> writes a byte-order mark and then the code units in the
  host's byte order, taken here as little-endian; a surrogate code point cannot be
  encoded. \<open>bytes.decode("utf-16")\<close> reads the mark to choose the byte order
  (little-endian without one) and drops it; an odd number of bytes, or a surrogate unit
  that is not half of a pair, raises.
\<close>

definition is_surrogate :: "nat \<Rightarrow> bool" where
  "is_surrogate c \<longleftrightarrow> 55296 \<le> c \<and> c \<le> 57343"

definition code_units :: "nat \<Rightarrow> nat list" where
  "code_units c =
     (if c < 65536 then [c]
      else [55296 + (c - 65536) div 1024, 56320 + (c - 65536) mod 1024])"

fun utf16_units :: "pystr \<Rightarrow> error + nat list" where
  "utf16_units [] = Inr []"
| "utf16_units (c # cs) =
     (if is_surrogate c \<or> 1114111 < c then Inl UnicodeEncodeError
      else ebind (utf16_units cs) (\<lambda>us. Inr (code_units c @ us)))"

definition le_bytes :: "nat \<Rightarrow> byte list" where
  "le_bytes u = [of_nat (u mod 256), of_nat (u div 256)]"

definition utf16_encode :: "pystr \<Rightarrow> error + byte list" where
  "utf16_encode p = ebind (utf16_units p) (\<lambda>us. Inr ([255, 254] @ concat (map le_bytes us)))"

fun units_of_bytes :: "bool \<Rightarrow> byte list \<Rightarrow> error + nat list" where
  "units_of_bytes le [] = Inr []"
| "units_of_bytes le [b] = Inl UnicodeDecodeError"
| "units_of_bytes le (a # b # bs) =
     ebind (units_of_bytes le bs)
       (\<lambda>us. Inr ((if le then unat a + 256 * unat b else unat b + 256 * unat a) # us))"

fun chars_of_units :: "nat list \<Rightarrow> error + pystr" where
  "chars_of_units [] = Inr []"
| "chars_of_units (u # us) =
     (if 55296 \<le> u \<and> u \<le> 56319 then
        (case us of
           [] \<Rightarrow> Inl UnicodeDecodeError
         | v # vs \<Rightarrow>
             if 56320 \<le> v \<and> v \<le> 57343 then
               ebind (chars_of_units vs)
                 (\<lambda>cs. Inr ((65536 + (u - 55296) * 1024 + (v - 56320)) # cs))
             else Inl UnicodeDecodeError)
      else if 56320 \<le> u \<and> u \<le> 57343 then Inl UnicodeDecodeError
      else ebind (chars_of_units us) (\<lambda>cs. Inr (u # cs)))"

definition utf16_decode :: "byte list \<Rightarrow> error + pystr" where
  "utf16_decode bs =
     (if take 2 bs = [255, 254] then ebind (units_of_bytes True (drop 2 bs)) chars_of_units
      else if take 2 bs = [254, 255] then ebind (units_of_bytes False (drop 2 bs)) chars_of_units
      else ebind (units_of_bytes True bs) chars_of_units)"

text \<open>
  A file opened with \<open>encoding="utf-16"\<close> is decoded by the incremental decoder of the
  codec, which is stricter than \<open>bytes.decode\<close>: bytes that do not start with a byte order
  mark raise \<open>UnicodeError\<close> (or its subclass \<open>UnicodeDecodeError\<close>, when they are no
  utf-16 in the native order either; the model writes \<open>UnicodeError\<close> for both). A file of
  no bytes decodes to the empty string.
\<close>

definition utf16_stream_decode :: "byte list \<Rightarrow> error + pystr" where
  "utf16_stream_decode bs =
     (if take 2 bs = [255, 254] then ebind (units_of_bytes True (drop 2 bs)) chars_of_units
      else if take 2 bs = [254, 255] then ebind (units_of_bytes False (drop 2 bs)) chars_of_units
      else if bs = [] then Inr []
      else Inl UnicodeError)"

text \<open>
  The guard of every rule of the parser,
  \<open>"PHRASE".encode("utf-16").decode("utf-16") in line\<close>.
\<close>

definition has :: "string \<Rightarrow> pystr \<Rightarrow> error + bool" where
  "has phrase line =
     ebind (utf16_encode (lit phrase)) (\<lambda>bs. ebind (utf16_decode bs) (\<lambda>p. Inr (py_in p line)))"

subsection \<open>Reading a text file\<close>

text \<open>
  \<open>readlines\<close> of a file in text mode with universal newlines: \<open>\r\n\<close> and a lone
  \<open>\r\<close> become \<open>\n\<close>, and every line keeps its \<open>\n\<close>; a last line without one is
  kept as it is.
\<close>

fun lines_from :: "pystr \<Rightarrow> pystr \<Rightarrow> pystr list" where
  "lines_from cur [] = (if cur = [] then [] else [cur])"
| "lines_from cur (c # cs) =
     (if c = 10 then (cur @ [10]) # lines_from [] cs
      else if c = 13 then
        (case cs of
           [] \<Rightarrow> [cur @ [10]]
         | d # ds \<Rightarrow>
             if d = 10 then (cur @ [10]) # lines_from [] ds
             else (cur @ [10]) # lines_from [] cs)
      else lines_from (cur @ [c]) cs)"

definition readlines :: "pystr \<Rightarrow> pystr list" where
  "readlines text = lines_from [] text"

text \<open>\<open>str(n)\<close> for an integer, as the f-strings \<open>f"{nb}.inp"\<close> and \<open>f"{nb}.out"\<close>
  print it.\<close>

fun digits_of :: "nat \<Rightarrow> pystr" where
  "digits_of n = (if n < 10 then [48 + n] else digits_of (n div 10) @ [48 + n mod 10])"

declare digits_of.simps [simp del]

definition str_int :: "int \<Rightarrow> pystr" where
  "str_int i = (if i < 0 then 45 # digits_of (nat (- i)) else digits_of (nat i))"

section \<open>The environment and the files\<close>

text \<open>
  What the program finds outside itself: the report files on disk as bytes, by name
  (the content found when the file is opened); the cheminformatics library, which for
  a molecule identifier gives the XYZ block, the formal charge and the number of
  radical electrons, or raises; and whether the operating system can start a command.
\<close>

record env =
  disk :: "pystr \<rightharpoonup> byte list"
  rdkit :: "pystr \<Rightarrow> (pystr \<times> int \<times> nat) option"
  launches :: "pystr list \<Rightarrow> bool"

definition out_name :: "int \<Rightarrow> pystr" where
  "out_name nb = str_int nb @ lit ''.out''"

definition inp_name :: "int \<Rightarrow> pystr" where
  "inp_name nb = str_int nb @ lit ''.inp''"

text \<open>\<open>with open(name, encoding="utf-16") as f: output = f.readlines()\<close>\<close>

definition open_readlines :: "env \<Rightarrow> pystr \<Rightarrow> error + pystr list" where
  "open_readlines E name =
     (case disk E name of
        None \<Rightarrow> Inl FileNotFoundError
      | Some bs \<Rightarrow> ebind (utf16_stream_decode bs) (\<lambda>text. Inr (readlines text)))"

section \<open>The report parser \<open>orca_reader\<close>\<close>

text \<open>
  The local variables that live across iterations of the loop over the lines: the
  dictionary \<open>props\<close>, the two flags, and \<open>homo_Eh\<close>, \<open>homo_eV\<close>, which are unbound
  (\<open>None\<close>) until a row with positive occupation has been read. The other locals
  (\<open>splitted\<close>, \<open>lumo_Eh\<close>, \<open>lumo_eV\<close>, \<open>moment\<close>, ...) are assigned in the iteration
  that reads them, before it reads them.
\<close>

record locals =
  props :: "string \<rightharpoonup> pystr"
  parse :: bool
  orbitals_start :: bool
  homo_Eh :: "pystr option"
  homo_eV :: "pystr option"

text \<open>Lines 93 to 110: the orbital rows.\<close>

definition orbital_row :: "locals \<Rightarrow> pystr \<Rightarrow> error + locals" where
  "orbital_row st line =
     (if parse st \<and> orbitals_start st then
        (let splitted = split line in
         ebind (item splitted 1) (\<lambda>occ.
         ebind (float_gt_zero occ) (\<lambda>positive.
         ebind (item splitted 2) (\<lambda>e_Eh.
         ebind (item splitted 3) (\<lambda>e_eV.
           if positive then
             Inr (st\<lparr>props := (props st)(''LUMO (Eh)'' \<mapsto> e_Eh, ''LUMO (eV)'' \<mapsto> e_eV,
                                         ''HOMO (Eh)'' \<mapsto> e_Eh, ''HOMO (eV)'' \<mapsto> e_eV),
                     homo_Eh := Some e_Eh, homo_eV := Some e_eV\<rparr>)
           else
             (case (homo_Eh st, homo_eV st) of
                (Some h_Eh, Some h_eV) \<Rightarrow>
                  Inr (st\<lparr>props := (props st)(''LUMO (Eh)'' \<mapsto> e_Eh, ''LUMO (eV)'' \<mapsto> e_eV,
                                              ''HOMO (Eh)'' \<mapsto> h_Eh, ''HOMO (eV)'' \<mapsto> h_eV),
                          parse := False, orbitals_start := False\<rparr>)
              | _ \<Rightarrow> Inl UnboundLocalError))))))
      else Inr st)"

text \<open>Lines 112 to 122: dipole moment and isotropic polarizability.\<close>

definition dipole_rules :: "locals \<Rightarrow> pystr \<Rightarrow> error + locals" where
  "dipole_rules st0 line =
     ebind (has ''DIPOLE MOMENT'' line) (\<lambda>opened.
     let st1 = (if opened then st0\<lparr>parse := True\<rparr> else st0) in
     ebind (has ''Magnitude (Debye)'' line) (\<lambda>magnitude.
     ebind (if parse st1 \<and> magnitude then
              ebind (item (split line) 3) (\<lambda>moment.
                Inr (st1\<lparr>props := (props st1)(''Dipole Moment'' \<mapsto> moment)\<rparr>))
            else Inr st1) (\<lambda>st2.
     ebind (has ''Isotropic polarizability'' line) (\<lambda>isotropic.
       if parse st2 \<and> isotropic then
         ebind (item (split line) 3) (\<lambda>polarizability.
           Inr (st2\<lparr>props := (props st2)(''polarizability'' \<mapsto> polarizability),
                   parse := False\<rparr>))
       else Inr st2))))"

text \<open>One rule of lines 127 to 141: under the flag and the phrase, token \<open>i\<close> of the
  line is stored under \<open>key\<close>.\<close>

definition token_rule :: "string \<Rightarrow> nat \<Rightarrow> string \<Rightarrow> locals \<Rightarrow> pystr \<Rightarrow> error + locals" where
  "token_rule phrase i key st line =
     ebind (has phrase line) (\<lambda>found.
       if parse st \<and> found then
         ebind (item (split line) i) (\<lambda>v. Inr (st\<lparr>props := (props st)(key \<mapsto> v)\<rparr>))
       else Inr st)"

text \<open>Lines 143 to 147: \<open>A, B, C = line.split()[4:7]\<close> raises ValueError unless the
  slice has exactly three tokens.\<close>

definition rotational_rule :: "locals \<Rightarrow> pystr \<Rightarrow> error + locals" where
  "rotational_rule st line =
     ebind (has ''Rotational constants in cm-1:'' line) (\<lambda>found.
       if parse st \<and> found then
         (case take 3 (drop 4 (split line)) of
            [a, b, c] \<Rightarrow> Inr (st\<lparr>props := (props st)(''A'' \<mapsto> a, ''B'' \<mapsto> b, ''C'' \<mapsto> c)\<rparr>)
          | _ \<Rightarrow> Inl ValueError)
       else Inr st)"

text \<open>Lines 124 to 147: the thermochemistry and the rotational constants.\<close>

definition thermo_rules :: "locals \<Rightarrow> pystr \<Rightarrow> error + locals" where
  "thermo_rules st0 line =
     ebind (has ''INNER ENERGY'' line) (\<lambda>opened.
     let st1 = (if opened then st0\<lparr>parse := True\<rparr> else st0) in
     ebind (token_rule ''Total thermal energy'' 3 ''U'' st1 line) (\<lambda>st2.
     ebind (token_rule ''Total Enthalpy'' 3 ''H'' st2 line) (\<lambda>st3.
     ebind (token_rule ''Final entropy term'' 4 ''S'' st3 line) (\<lambda>st4.
     ebind (token_rule ''Final Gibbs'' 5 ''G'' st4 line) (\<lambda>st5.
     rotational_rule st5 line)))))"

text \<open>The body of the loop, lines 85 to 147; each \<open>continue\<close> ends the iteration.\<close>

definition loop_body :: "locals \<Rightarrow> pystr \<Rightarrow> error + locals" where
  "loop_body st line =
     ebind (has ''ORBITAL ENERGIES'' line) (\<lambda>header.
       if header then Inr (st\<lparr>parse := True\<rparr>)
       else
         ebind (has ''E(Eh)'' line) (\<lambda>columns.
           if columns then Inr (st\<lparr>orbitals_start := True\<rparr>)
           else
             ebind (orbital_row st line) (\<lambda>st1.
             ebind (dipole_rules st1 line) (\<lambda>st2.
             thermo_rules st2 line))))"

fun scan :: "locals \<Rightarrow> pystr list \<Rightarrow> error + locals" where
  "scan st [] = Inr st"
| "scan st (line # output) = ebind (loop_body st line) (\<lambda>st'. scan st' output)"

definition initial :: "pystr \<Rightarrow> locals" where
  "initial smiles =
     \<lparr>props = [''smiles'' \<mapsto> smiles], parse = False, orbitals_start = False,
      homo_Eh = None, homo_eV = None\<rparr>"

definition orca_reader :: "env \<Rightarrow> pystr \<Rightarrow> int \<Rightarrow> error + (string \<rightharpoonup> pystr)" where
  "orca_reader E smiles nb =
     ebind (open_readlines E (out_name nb)) (\<lambda>output.
     ebind (scan (initial smiles) output) (\<lambda>st. Inr (props st)))"

section \<open>The input builder \<open>orca_generator\<close>\<close>

text \<open>
  The files the program writes are text files, kept by name with their text; the table
  last written to \<open>orkanized.csv\<close> is kept as a table; \<open>calls\<close> lists the argument
  vectors handed to \<open>subprocess.run\<close>. No file the program writes has a name ending
  in \<open>.out\<close>, so a report it reads is always one of the environment's.
\<close>

type_synonym row = "string \<rightharpoonup> pystr"
type_synonym table = "row list"

record world =
  files :: "pystr \<rightharpoonup> pystr"
  csv :: "table option"
  calls :: "pystr list list"

text \<open>\<open>open(name, "w").write(text)\<close> and \<open>open(name, "a").write(text)\<close>\<close>

definition write_file :: "pystr \<Rightarrow> pystr \<Rightarrow> world \<Rightarrow> world" where
  "write_file name text w = w\<lparr>files := (files w)(name \<mapsto> text)\<rparr>"

definition append_file :: "pystr \<Rightarrow> pystr \<Rightarrow> world \<Rightarrow> world" where
  "append_file name text w =
     w\<lparr>files := (files w)(name \<mapsto> (case files w name of None \<Rightarrow> text | Some old \<Rightarrow> old @ text))\<rparr>"

text \<open>\<open>s.split(sep)\<close> with a one-character separator, and \<open>sep.join(xs)\<close>.\<close>

fun split_on_from :: "nat \<Rightarrow> pystr \<Rightarrow> pystr \<Rightarrow> pystr list" where
  "split_on_from sep cur [] = [cur]"
| "split_on_from sep cur (c # cs) =
     (if c = sep then cur # split_on_from sep [] cs else split_on_from sep (cur @ [c]) cs)"

definition split_on :: "nat \<Rightarrow> pystr \<Rightarrow> pystr list" where
  "split_on sep s = split_on_from sep [] s"

fun join :: "pystr \<Rightarrow> pystr list \<Rightarrow> pystr" where
  "join sep [] = []"
| "join sep [x] = x"
| "join sep (x # y # xs) = x @ sep @ join sep (y # xs)"

text \<open>
  \<open>NumRadicalElectrons(mol)*2*0.5 + 1\<close> is the float \<open>n + 1.0\<close>, which an f-string
  prints as the integer followed by \<open>.0\<close> (below \<open>10 ^ 16\<close>, far above any electron
  count).
\<close>

definition spin_multiplicity :: "nat \<Rightarrow> pystr" where
  "spin_multiplicity radicals = digits_of (radicals + 1) @ lit ''.0''"

definition file_output :: "pystr \<Rightarrow> int \<Rightarrow> nat \<Rightarrow> pystr" where
  "file_output output charge radicals =
     lit ''! DFT B3LYP/G RIJCOSX def2-SVP Opt FREQ BOHRS xyzfile'' @ [10] @
     [10] @
     lit ''    %scf'' @ [10] @
     lit ''    MaxIter 500'' @ [10] @
     lit ''    end'' @ [10] @
     [10] @
     lit ''    %geom'' @ [10] @
     lit ''    MaxIter 500'' @ [10] @
     lit ''    end'' @ [10] @
     [10] @
     lit ''    %elprop Dipole true'' @ [10] @
     lit ''    Polar 1'' @ [10] @
     lit ''    end'' @ [10] @
     [10] @
     lit ''    * xyz '' @ str_int charge @ lit '' '' @ spin_multiplicity radicals @ [10] @
     lit ''    '' @ join [10] (butlast (drop 2 (split_on 10 output))) @ [10] @
     lit ''    *''"

definition orca_generator :: "env \<Rightarrow> pystr \<Rightarrow> int \<Rightarrow> world \<Rightarrow> error + world" where
  "orca_generator E smiles nb w =
     (case rdkit E smiles of
        None \<Rightarrow> Inl RDKitError
      | Some (output, charge, radicals) \<Rightarrow>
          Inr (write_file (inp_name nb) (file_output output charge radicals) w))"

section \<open>The orchestrator \<open>orcanize\<close> and the batch driver \<open>orcanize_many\<close>\<close>

definition ORCA_EXECUTABLE :: pystr where
  "ORCA_EXECUTABLE = lit ''orca''"

text \<open>
  \<open>subprocess.run(args)\<close> with a list and no \<open>shell=True\<close>: the list is the argument
  vector of the new process, element by element; no shell reads it. The call raises
  when the command cannot be started and otherwise returns whatever the exit status.
\<close>

definition subprocess_run :: "env \<Rightarrow> pystr list \<Rightarrow> world \<Rightarrow> error + world" where
  "subprocess_run E args w =
     (if launches E args then Inr (w\<lparr>calls := calls w @ [args]\<rparr>) else Inl OSError)"

definition orca_args :: "pystr \<Rightarrow> pystr list" where
  "orca_args smiles = [ORCA_EXECUTABLE, smiles @ lit ''.inp'', lit ''>'', smiles @ lit ''.out'']"

text \<open>The log line \<open>f"{nb} {smiles}\n"\<close>.\<close>

definition log_line :: "int \<Rightarrow> pystr \<Rightarrow> pystr" where
  "log_line nb smiles = str_int nb @ [32] @ smiles @ [10]"

text \<open>The result is the returned dictionary, or \<open>None\<close> when the \<open>except\<close> branch ran.\<close>

definition orcanize :: "env \<Rightarrow> pystr \<Rightarrow> int \<Rightarrow> world \<Rightarrow> error + (row option \<times> world)" where
  "orcanize E smiles nb w =
     ebind (orca_generator E smiles nb w) (\<lambda>w1.
     ebind (subprocess_run E (orca_args smiles) w1) (\<lambda>w2.
       case orca_reader E smiles nb of
         Inr data \<Rightarrow> Inr (Some data, append_file (lit ''done.log'') (log_line nb smiles) w2)
       | Inl e \<Rightarrow> Inr (None, append_file (lit ''undone.log'') (log_line nb smiles) w2)))"

text \<open>
  A data frame is the list of its rows; a cell that is missing (NaN) is a key the row
  does not bind. \<open>pd.DataFrame(dat, index=[0])\<close> has the one row \<open>dat\<close>, and for
  \<open>dat = None\<close> one row with no column; \<open>append(..., ignore_index=True)\<close> puts the
  rows of its argument after the rows of the frame. What \<open>print\<close> writes is left out.
\<close>

definition DataFrame :: "row option \<Rightarrow> table" where
  "DataFrame dat = (case dat of None \<Rightarrow> [Map.empty] | Some d \<Rightarrow> [d])"

fun batch :: "env \<Rightarrow> bool \<Rightarrow> nat \<Rightarrow> pystr list \<Rightarrow> table \<Rightarrow> world \<Rightarrow> error + (table \<times> world)" where
  "batch E save nb [] outdata w = Inr (outdata, w)"
| "batch E save nb (smiles # molecules) outdata w =
     ebind (orcanize E smiles (int nb) w) (\<lambda>(dat, w1).
       let outdata' = outdata @ DataFrame dat;
           w2 = (if save then w1\<lparr>csv := Some outdata'\<rparr> else w1)
       in batch E save (Suc nb) molecules outdata' w2)"

definition orcanize_many :: "env \<Rightarrow> pystr list \<Rightarrow> bool \<Rightarrow> world \<Rightarrow> error + (table \<times> world)" where
  "orcanize_many E molecules save w = batch E save 0 molecules [] w"

section \<open>Notions used in the statements\<close>

text \<open>The keys a returned dictionary may hold.\<close>

definition vocabulary :: "string set" where
  "vocabulary = {''smiles'', ''HOMO (Eh)'', ''HOMO (eV)'', ''LUMO (Eh)'', ''LUMO (eV)'',
     ''Dipole Moment'', ''polarizability'', ''U'', ''H'', ''S'', ''G'', ''A'', ''B'', ''C''}"

text \<open>A Unicode scalar value: a code point that is not a surrogate.\<close>

definition scalar :: "nat \<Rightarrow> bool" where
  "scalar c \<longleftrightarrow> c \<le> 1114111 \<and> \<not> is_surrogate c"

text \<open>The bytes of a file that holds \<open>text\<close> in utf-16 with a byte-order mark, and the
  text made of the given ASCII lines, each ended by a newline.\<close>

definition utf16_file :: "pystr \<Rightarrow> byte list" where
  "utf16_file text = (case utf16_encode text of Inr bs \<Rightarrow> bs | Inl e \<Rightarrow> [])"

definition unlines :: "string list \<Rightarrow> pystr" where
  "unlines ls = concat (map (\<lambda>l. lit l @ [10]) ls)"

subsection \<open>A sample run\<close>

text \<open>A report with the three sections, in the layout of the program's output, and
  an environment with three jobs whose second report is an empty file; a fourth
  report holds the orbital table only.\<close>

definition sample_report :: "string list" where
  "sample_report =
     [''ORBITAL ENERGIES'',
      ''  NO   OCC          E(Eh)            E(eV)'',
      ''   0   2.0000 -0.123 -3.35'',
      ''   1   0.0000 0.045 1.22'',
      ''DIPOLE MOMENT'',
      ''Magnitude (Debye) : 1.85'',
      ''Isotropic polarizability : 9.72'',
      ''INNER ENERGY'',
      ''Total thermal energy -76.29 Eh'',
      ''Total Enthalpy ... -76.28 Eh'',
      ''Final entropy term ... 0.02 Eh'',
      ''Final Gibbs free energy ... -76.31 Eh'',
      ''Rotational constants in cm-1: 27.4 14.6 9.5'']"

definition sample_env :: env where
  "sample_env =
     \<lparr>disk = [lit ''0.out'' \<mapsto> utf16_file (unlines sample_report),
              lit ''1.out'' \<mapsto> [],
              lit ''2.out'' \<mapsto> utf16_file (unlines sample_report),
              lit ''3.out'' \<mapsto> utf16_file (unlines (take 4 sample_report))],
      rdkit = (\<lambda>smiles. Some ([], 0, 0)),
      launches = (\<lambda>args. True)\<rparr>"

definition sample_props :: "pystr \<Rightarrow> row" where
  "sample_props smiles =
     [''smiles'' \<mapsto> smiles,
      ''LUMO (Eh)'' \<mapsto> lit ''0.045'', ''LUMO (eV)'' \<mapsto> lit ''1.22'',
      ''HOMO (Eh)'' \<mapsto> lit ''-0.123'', ''HOMO (eV)'' \<mapsto> lit ''-3.35'',
      ''Dipole Moment'' \<mapsto> lit ''1.85'', ''polarizability'' \<mapsto> lit ''9.72'',
      ''U'' \<mapsto> lit ''-76.29'', ''H'' \<mapsto> lit ''-76.28'', ''S'' \<mapsto> lit ''0.02'',
      ''G'' \<mapsto> lit ''-76.31'',
      ''A'' \<mapsto> lit ''27.4'', ''B'' \<mapsto> lit ''14.6'', ''C'' \<mapsto> lit ''9.5'']"

definition empty_world :: world where
  "empty_world = \<lparr>files = Map.empty, csv = None, calls = []\<rparr>"

definition orbital_props :: "pystr \<Rightarrow> row" where
  "orbital_props smiles =
     [''smiles'' \<mapsto> smiles,
      ''LUMO (Eh)'' \<mapsto> lit ''0.045'', ''LUMO (eV)'' \<mapsto> lit ''1.22'',
      ''HOMO (Eh)'' \<mapsto> lit ''-0.123'', ''HOMO (eV)'' \<mapsto> lit ''-3.35'']"

subsection \<open>Phrases of the rules\<close>

text \<open>The three phrases that set the flag \<open>parse\<close>, and for each property the phrase
  of the line its value is taken from (for the orbital energies, the column header
  that starts the rows).\<close>

definition section_header :: "pystr \<Rightarrow> bool" where
  "section_header line \<longleftrightarrow>
     py_in (lit ''ORBITAL ENERGIES'') line \<or> py_in (lit ''DIPOLE MOMENT'') line \<or>
     py_in (lit ''INNER ENERGY'') line"

definition value_phrases :: "(string \<times> string) list" where
  "value_phrases =
     [(''HOMO (Eh)'', ''E(Eh)''), (''HOMO (eV)'', ''E(Eh)''),
      (''LUMO (Eh)'', ''E(Eh)''), (''LUMO (eV)'', ''E(Eh)''),
      (''Dipole Moment'', ''Magnitude (Debye)''),
      (''polarizability'', ''Isotropic polarizability''),
      (''U'', ''Total thermal energy''), (''H'', ''Total Enthalpy''),
      (''S'', ''Final entropy term''), (''G'', ''Final Gibbs''),
      (''A'', ''Rotational constants in cm-1:''), (''B'', ''Rotational constants in cm-1:''),
      (''C'', ''Rotational constants in cm-1:'')]"

subsection \<open>The jobs of a batch\<close>

text \<open>
  \<open>enumerate(molecules)\<close>; what the parser returns for a job, with \<open>None\<close> for an
  exception; and a log file after the lines of the given jobs have been appended to it.
\<close>

definition jobs :: "pystr list \<Rightarrow> (nat \<times> pystr) list" where
  "jobs molecules = zip [0..<length molecules] molecules"

definition parsed :: "env \<Rightarrow> nat \<times> pystr \<Rightarrow> row option" where
  "parsed E job =
     (case orca_reader E (snd job) (int (fst job)) of Inr data \<Rightarrow> Some data | Inl e \<Rightarrow> None)"

definition parses :: "env \<Rightarrow> nat \<times> pystr \<Rightarrow> bool" where
  "parses E job \<longleftrightarrow> parsed E job \<noteq> None"

definition log_after :: "pystr option \<Rightarrow> (nat \<times> pystr) list \<Rightarrow> pystr option" where
  "log_after old entries =
     foldl (\<lambda>log (nb, smiles).
              Some ((case log of None \<Rightarrow> [] | Some text \<Rightarrow> text) @ log_line (int nb) smiles))
       old entries"

definition sample_molecules :: "pystr list" where
  "sample_molecules = [lit ''O'', lit ''C'', lit ''N'']"

definition log_name :: "row option \<Rightarrow> pystr" where
  "log_name dat = (case dat of Some d \<Rightarrow> lit ''done.log'' | None \<Rightarrow> lit ''undone.log'')"

text \<open>A row that carries a molecule identifier.\<close>

definition named :: "row \<Rightarrow> bool" where
  "named r \<longleftrightarrow> r ''smiles'' \<noteq> None"

text \<open>Five molecules for the sample environment: the fifth has no report file.\<close>

definition sample_batch :: "pystr list" where
  "sample_batch = [lit ''O'', lit ''C'', lit ''N'', lit ''CC'', lit ''CO'']"

text \<open>
  The sample environment without the report of the third job, and four molecules for
  it: the report of the second is an empty file, the third has none.
\<close>

definition gap_env :: env where
  "gap_env = sample_env\<lparr>disk := (disk sample_env)(lit ''2.out'' := None)\<rparr>"

definition gap_batch :: "pystr list" where
  "gap_batch = [lit ''O'', lit ''C'', lit ''N'', lit ''CC'']"

subsection \<open>The parser with the phrases matched directly\<close>

text \<open>
  The same parser with every guard \<open>"PHRASE".encode("utf-16").decode("utf-16") in line\<close>
  replaced by \<open>"PHRASE" in line\<close>, the phrase matched as it is written. The orbital rows
  have no phrase and are read by \<open>orbital_row\<close> as before.
\<close>

definition dipole_rules_direct :: "locals \<Rightarrow> pystr \<Rightarrow> error + locals" where
  "dipole_rules_direct st0 line =
     (let st1 = (if py_in (lit ''DIPOLE MOMENT'') line then st0\<lparr>parse := True\<rparr> else st0) in
      ebind (if parse st1 \<and> py_in (lit ''Magnitude (Debye)'') line then
               ebind (item (split line) 3) (\<lambda>moment.
                 Inr (st1\<lparr>props := (props st1)(''Dipole Moment'' \<mapsto> moment)\<rparr>))
             else Inr st1) (\<lambda>st2.
        if parse st2 \<and> py_in (lit ''Isotropic polarizability'') line then
          ebind (item (split line) 3) (\<lambda>polarizability.
            Inr (st2\<lparr>props := (props st2)(''polarizability'' \<mapsto> polarizability),
                    parse := False\<rparr>))
        else Inr st2))"

definition token_rule_direct :: "string \<Rightarrow> nat \<Rightarrow> string \<Rightarrow> locals \<Rightarrow> pystr \<Rightarrow> error + locals" where
  "token_rule_direct phrase i key st line =
     (if parse st \<and> py_in (lit phrase) line then
        ebind (item (split line) i) (\<lambda>v. Inr (st\<lparr>props := (props st)(key \<mapsto> v)\<rparr>))
      else Inr st)"

definition rotational_rule_direct :: "locals \<Rightarrow> pystr \<Rightarrow> error + locals" where
  "rotational_rule_direct st line =
     (if parse st \<and> py_in (lit ''Rotational constants in cm-1:'') line then
        (case take 3 (drop 4 (split line)) of
           [a, b, c] \<Rightarrow> Inr (st\<lparr>props := (props st)(''A'' \<mapsto> a, ''B'' \<mapsto> b, ''C'' \<mapsto> c)\<rparr>)
         | _ \<Rightarrow> Inl ValueError)
      else Inr st)"

definition thermo_rules_direct :: "locals \<Rightarrow> pystr \<Rightarrow> error + locals" where
  "thermo_rules_direct st0 line =
     (let st1 = (if py_in (lit ''INNER ENERGY'') line then st0\<lparr>parse := True\<rparr> else st0) in
      ebind (token_rule_direct ''Total thermal energy'' 3 ''U'' st1 line) (\<lambda>st2.
      ebind (token_rule_direct ''Total Enthalpy'' 3 ''H'' st2 line) (\<lambda>st3.
      ebind (token_rule_direct ''Final entropy term'' 4 ''S'' st3 line) (\<lambda>st4.
      ebind (token_rule_direct ''Final Gibbs'' 5 ''G'' st4 line) (\<lambda>st5.
      rotational_rule_direct st5 line)))))"

definition loop_body_direct :: "locals \<Rightarrow> pystr \<Rightarrow> error + locals" where
  "loop_body_direct st line =
     (if py_in (lit ''ORBITAL ENERGIES'') line then Inr (st\<lparr>parse := True\<rparr>)
      else if py_in (lit ''E(Eh)'') line then Inr (st\<lparr>orbitals_start := True\<rparr>)
      else
        ebind (orbital_row st line) (\<lambda>st1.
        ebind (dipole_rules_direct st1 line) (\<lambda>st2.
        thermo_rules_direct st2 line)))"

fun scan_direct :: "locals \<Rightarrow> pystr list \<Rightarrow> error + locals" where
  "scan_direct st [] = Inr st"
| "scan_direct st (line # output) = ebind (loop_body_direct st line) (\<lambda>st'. scan_direct st' output)"

definition orca_reader_direct :: "env \<Rightarrow> pystr \<Rightarrow> int \<Rightarrow> error + (string \<rightharpoonup> pystr)" where
  "orca_reader_direct E smiles nb =
     ebind (open_readlines E (out_name nb)) (\<lambda>output.
     ebind (scan_direct (initial smiles) output) (\<lambda>st. Inr (props st)))"

text \<open>The round trip \<open>p.encode("utf-16").decode("utf-16")\<close>.\<close>

definition round_trip :: "pystr \<Rightarrow> error + pystr" where
  "round_trip p = ebind (utf16_encode p) utf16_decode"

subsection \<open>Rows of the orbital table\<close>

text \<open>
  A row of the orbital table: a line with at least four tokens that holds neither of
  the two orbital headers, which would end the iteration before the row is read, nor
  the phrase that closes a section.
\<close>

definition table_row :: "pystr \<Rightarrow> bool" where
  "table_row row \<longleftrightarrow>
     4 \<le> length (split row) \<and> \<not> py_in (lit ''ORBITAL ENERGIES'') row \<and>
     \<not> py_in (lit ''E(Eh)'') row \<and> \<not> py_in (lit ''Isotropic polarizability'') row"

section \<open>Basic facts\<close>

lemma ebind_Inr [simp]: "ebind (Inr x) f = f x"
  by (simp add: ebind_def)

lemma ebind_Inl [simp]: "ebind (Inl e) f = Inl e"
  by (simp add: ebind_def)

lemma ebind_eq_Inr: "ebind m f = Inr y \<longleftrightarrow> (\<exists>x. m = Inr x \<and> f x = Inr y)"
  by (cases m) simp_all

subsection \<open>The round trip through utf-16\<close>

lemma utf16_units_scalar:
  "list_all scalar p \<Longrightarrow> utf16_units p = Inr (concat (map code_units p))"
  by (induction p) (simp_all add: scalar_def)

lemma unit_of_le_bytes:
  "u < 65536 \<Longrightarrow> unat (of_nat (u mod 256) :: byte) + 256 * unat (of_nat (u div 256) :: byte) = u"
  by (simp add: unat_of_nat take_bit_eq_mod)

lemma units_of_le_bytes:
  "list_all (\<lambda>u. u < 65536) us \<Longrightarrow> units_of_bytes True (concat (map le_bytes us)) = Inr us"
  by (induction us) (simp_all add: le_bytes_def unit_of_le_bytes)

lemma code_units_small: "scalar c \<Longrightarrow> list_all (\<lambda>u. u < 65536) (code_units c)"
  by (auto simp: scalar_def code_units_def is_surrogate_def)

lemma code_units_all_small:
  "list_all scalar p \<Longrightarrow> list_all (\<lambda>u. u < 65536) (concat (map code_units p))"
  by (induction p) (simp_all add: code_units_small)

lemma chars_of_code_units:
  "scalar c \<Longrightarrow> chars_of_units (code_units c @ us) = ebind (chars_of_units us) (\<lambda>cs. Inr (c # cs))"
  by (auto simp: scalar_def code_units_def is_surrogate_def)

lemma chars_of_units_scalar:
  "list_all scalar p \<Longrightarrow> chars_of_units (concat (map code_units p)) = Inr p"
  by (induction p) (simp_all add: chars_of_code_units)

lemma utf16_decode_mark:
  "utf16_decode ([255, 254] @ bs) = ebind (units_of_bytes True bs) chars_of_units"
  by (simp add: utf16_decode_def)

lemma utf16_encode_scalar:
  "list_all scalar p \<Longrightarrow>
   utf16_encode p = Inr ([255, 254] @ concat (map le_bytes (concat (map code_units p))))"
  by (simp add: utf16_encode_def utf16_units_scalar)

lemma utf16_round_trip_scalar:
  "list_all scalar p \<Longrightarrow> ebind (utf16_encode p) utf16_decode = Inr p"
  by (simp add: utf16_encode_scalar utf16_decode_mark units_of_le_bytes code_units_all_small
      chars_of_units_scalar del: append.simps)

lemma of_char_below: "(of_char c :: nat) < 256"
proof -
  have "(of_char c :: nat) mod 256 < 256" by simp
  then show ?thesis by (simp only: of_char_mod_256)
qed

lemma scalar_of_char: "scalar (of_char c)"
  unfolding scalar_def is_surrogate_def using of_char_below [of c] by linarith

lemma scalar_lit: "list_all scalar (lit s)"
  by (induction s) (simp_all add: lit_def scalar_of_char)

lemma has_eq [simp]: "has phrase line = Inr (py_in (lit phrase) line)"
  using utf16_round_trip_scalar [OF scalar_lit, of phrase]
  by (auto simp: has_def ebind_def split: sum.splits)

subsection \<open>Reading the sample report\<close>

lemma lines_from_line:
  "10 \<notin> set l \<Longrightarrow> 13 \<notin> set l \<Longrightarrow>
   lines_from cur (l @ 10 # rest) = (cur @ l @ [10]) # lines_from [] rest"
  by (induction l arbitrary: cur) simp_all

lemma readlines_lines:
  "\<forall>l\<in>set ls. 10 \<notin> set l \<and> 13 \<notin> set l \<Longrightarrow>
   readlines (concat (map (\<lambda>l. l @ [10]) ls)) = map (\<lambda>l. l @ [10]) ls"
  unfolding readlines_def
  by (induction ls) (simp_all add: lines_from_line)

lemma scalar_unlines: "list_all scalar (unlines ls)"
proof (induction ls)
  case Nil
  show ?case by (simp add: unlines_def)
next
  case (Cons l ls)
  have "scalar 10" by (simp add: scalar_def is_surrogate_def)
  with Cons scalar_lit [of l] show ?case by (simp add: unlines_def)
qed

lemma utf16_decode_file:
  "list_all scalar text \<Longrightarrow> utf16_stream_decode (utf16_file text) = Inr text"
  using utf16_round_trip_scalar [of "text"]
  by (simp add: utf16_file_def utf16_encode_scalar utf16_decode_def utf16_stream_decode_def)

lemma open_readlines_file:
  assumes "disk E name = Some (utf16_file (unlines ls))"
    and "\<forall>l\<in>set ls. 10 \<notin> set (lit l) \<and> 13 \<notin> set (lit l)"
  shows "open_readlines E name = Inr (map (\<lambda>l. lit l @ [10]) ls)"
proof -
  have "readlines (unlines ls) = map (\<lambda>l. l @ [10]) (map lit ls)"
    unfolding unlines_def using readlines_lines [of "map lit ls"] assms(2)
    by (simp add: comp_def)
  then show ?thesis
    by (simp add: open_readlines_def assms(1) utf16_decode_file scalar_unlines comp_def)
qed

lemma open_readlines_empty: "disk E name = Some [] \<Longrightarrow> open_readlines E name = Inr []"
  by (simp add: open_readlines_def utf16_stream_decode_def readlines_def)

lemma out_name_0: "out_name 0 = lit ''0.out''"
  by (simp add: out_name_def str_int_def digits_of.simps lit_def)

lemma out_name_1: "out_name 1 = lit ''1.out''"
  by (simp add: out_name_def str_int_def digits_of.simps lit_def)

lemma out_name_2: "out_name 2 = lit ''2.out''"
  by (simp add: out_name_def str_int_def digits_of.simps lit_def)

lemmas eval_rules =
  loop_body_def orbital_row_def dipole_rules_def thermo_rules_def token_rule_def
  rotational_rule_def item_def split_def is_space_def float_gt_zero_def number_def digitpart_def
  exponent_def is_digit_def ascii_lower_def digits_value_def rounds_positive_def lit_def Let_def

lemma sample_scan:
  "ebind (scan (initial smiles) (map (\<lambda>l. lit l @ [10]) sample_report)) (\<lambda>st. Inr (props st)) =
   Inr (sample_props smiles)"
  by (simp add: eval_rules sample_report_def initial_def sample_props_def)

lemma sample_read_0:
  "open_readlines sample_env (out_name 0) = Inr (map (\<lambda>l. lit l @ [10]) sample_report)"
  by (rule open_readlines_file) (simp_all add: sample_env_def out_name_0 sample_report_def lit_def)

lemma sample_read_2:
  "open_readlines sample_env (out_name 2) = Inr (map (\<lambda>l. lit l @ [10]) sample_report)"
  by (rule open_readlines_file) (simp_all add: sample_env_def out_name_2 sample_report_def lit_def)

lemma out_name_3: "out_name 3 = lit ''3.out''"
  by (simp add: out_name_def str_int_def digits_of.simps lit_def)

lemma sample_read_3:
  "open_readlines sample_env (out_name 3) = Inr (map (\<lambda>l. lit l @ [10]) (take 4 sample_report))"
  by (rule open_readlines_file) (simp_all add: sample_env_def out_name_3 sample_report_def lit_def)

lemma orbital_scan:
  "ebind (scan (initial smiles) (map (\<lambda>l. lit l @ [10]) (take 4 sample_report)))
     (\<lambda>st. Inr (props st)) = Inr (orbital_props smiles)"
  by (simp add: eval_rules sample_report_def initial_def orbital_props_def)

lemma sample_reader_3: "orca_reader sample_env smiles 3 = Inr (orbital_props smiles)"
  unfolding orca_reader_def sample_read_3 ebind_Inr by (rule orbital_scan)

lemma sample_read_1: "open_readlines sample_env (out_name 1) = Inr []"
  by (rule open_readlines_empty) (simp add: sample_env_def out_name_1 lit_def)

lemma sample_reader_0: "orca_reader sample_env smiles 0 = Inr (sample_props smiles)"
  unfolding orca_reader_def sample_read_0 ebind_Inr by (rule sample_scan)

lemma sample_reader_2: "orca_reader sample_env smiles 2 = Inr (sample_props smiles)"
  unfolding orca_reader_def sample_read_2 ebind_Inr by (rule sample_scan)

lemma sample_reader_1: "orca_reader sample_env smiles 1 = Inr [''smiles'' \<mapsto> smiles]"
  unfolding orca_reader_def sample_read_1 by (simp add: initial_def)

section \<open>What one iteration may change\<close>

lemma orbital_row_dom:
  "orbital_row st line = Inr st' \<Longrightarrow>
   dom (props st') \<subseteq> dom (props st) \<union> {''HOMO (Eh)'', ''HOMO (eV)'', ''LUMO (Eh)'', ''LUMO (eV)''}"
  by (auto simp: orbital_row_def Let_def ebind_eq_Inr split: if_splits option.splits)

lemma orbital_row_frame:
  "orbital_row st line = Inr st' \<Longrightarrow>
   k \<notin> {''HOMO (Eh)'', ''HOMO (eV)'', ''LUMO (Eh)'', ''LUMO (eV)''} \<Longrightarrow> props st' k = props st k"
  by (auto simp: orbital_row_def Let_def ebind_eq_Inr split: if_splits option.splits)

lemma dipole_rules_dom:
  "dipole_rules st line = Inr st' \<Longrightarrow>
   dom (props st') \<subseteq> dom (props st) \<union> {''Dipole Moment'', ''polarizability''}"
  by (auto simp: dipole_rules_def Let_def ebind_eq_Inr split: if_splits)

lemma dipole_rules_frame:
  "dipole_rules st line = Inr st' \<Longrightarrow>
   k \<notin> {''Dipole Moment'', ''polarizability''} \<Longrightarrow> props st' k = props st k"
  by (auto simp: dipole_rules_def Let_def ebind_eq_Inr split: if_splits)

lemma token_rule_dom:
  "token_rule phrase i key st line = Inr st' \<Longrightarrow> dom (props st') \<subseteq> insert key (dom (props st))"
  by (auto simp: token_rule_def ebind_eq_Inr split: if_splits)

lemma token_rule_frame:
  "token_rule phrase i key st line = Inr st' \<Longrightarrow> k \<noteq> key \<Longrightarrow> props st' k = props st k"
  by (auto simp: token_rule_def ebind_eq_Inr split: if_splits)

lemma rotational_rule_dom:
  "rotational_rule st line = Inr st' \<Longrightarrow> dom (props st') \<subseteq> dom (props st) \<union> {''A'', ''B'', ''C''}"
  by (auto simp: rotational_rule_def ebind_eq_Inr split: if_splits list.splits)

lemma rotational_rule_frame:
  "rotational_rule st line = Inr st' \<Longrightarrow> k \<notin> {''A'', ''B'', ''C''} \<Longrightarrow> props st' k = props st k"
  by (auto simp: rotational_rule_def ebind_eq_Inr split: if_splits list.splits)

lemma subset_chain:
  "D2 \<subseteq> insert a D1 \<Longrightarrow> D3 \<subseteq> insert b D2 \<Longrightarrow> D4 \<subseteq> insert c D3 \<Longrightarrow>
   D5 \<subseteq> insert d D4 \<Longrightarrow> D6 \<subseteq> D5 \<union> R \<Longrightarrow> D6 \<subseteq> D1 \<union> insert a (insert b (insert c (insert d R)))"
  by blast

lemma thermo_rules_steps:
  assumes "thermo_rules st line = Inr st'"
  obtains s1 s2 s3 s4 s5 where
    "s1 = (if py_in (lit ''INNER ENERGY'') line then st\<lparr>parse := True\<rparr> else st)"
    "token_rule ''Total thermal energy'' 3 ''U'' s1 line = Inr s2"
    "token_rule ''Total Enthalpy'' 3 ''H'' s2 line = Inr s3"
    "token_rule ''Final entropy term'' 4 ''S'' s3 line = Inr s4"
    "token_rule ''Final Gibbs'' 5 ''G'' s4 line = Inr s5"
    "rotational_rule s5 line = Inr st'"
  using assms by (auto simp: thermo_rules_def Let_def ebind_eq_Inr)

lemma thermo_rules_dom:
  assumes "thermo_rules st line = Inr st'"
  shows "dom (props st') \<subseteq> dom (props st) \<union> {''U'', ''H'', ''S'', ''G'', ''A'', ''B'', ''C''}"
  using assms
proof (rule thermo_rules_steps)
  fix s1 s2 s3 s4 s5
  assume s1: "s1 = (if py_in (lit ''INNER ENERGY'') line then st\<lparr>parse := True\<rparr> else st)"
    and s2: "token_rule ''Total thermal energy'' 3 ''U'' s1 line = Inr s2"
    and s3: "token_rule ''Total Enthalpy'' 3 ''H'' s2 line = Inr s3"
    and s4: "token_rule ''Final entropy term'' 4 ''S'' s3 line = Inr s4"
    and s5: "token_rule ''Final Gibbs'' 5 ''G'' s4 line = Inr s5"
    and s6: "rotational_rule s5 line = Inr st'"
  have p: "props s1 = props st" by (simp add: s1)
  show ?thesis
    using subset_chain [OF token_rule_dom [OF s2] token_rule_dom [OF s3] token_rule_dom [OF s4]
      token_rule_dom [OF s5] rotational_rule_dom [OF s6]]
    by (simp only: p)
qed

lemma thermo_rules_frame:
  assumes "thermo_rules st line = Inr st'"
    and k: "k \<notin> {''U'', ''H'', ''S'', ''G'', ''A'', ''B'', ''C''}"
  shows "props st' k = props st k"
  using assms(1)
proof (rule thermo_rules_steps)
  fix s1 s2 s3 s4 s5
  assume s1: "s1 = (if py_in (lit ''INNER ENERGY'') line then st\<lparr>parse := True\<rparr> else st)"
    and s2: "token_rule ''Total thermal energy'' 3 ''U'' s1 line = Inr s2"
    and s3: "token_rule ''Total Enthalpy'' 3 ''H'' s2 line = Inr s3"
    and s4: "token_rule ''Final entropy term'' 4 ''S'' s3 line = Inr s4"
    and s5: "token_rule ''Final Gibbs'' 5 ''G'' s4 line = Inr s5"
    and s6: "rotational_rule s5 line = Inr st'"
  have p: "props s1 = props st" by (simp add: s1)
  show ?thesis
    using token_rule_frame [OF s2, of k] token_rule_frame [OF s3, of k] token_rule_frame [OF s4, of k]
      token_rule_frame [OF s5, of k] rotational_rule_frame [OF s6, of k] p k
    by simp
qed

lemma loop_body_cases:
  assumes "loop_body st line = Inr st'"
  obtains (header) "py_in (lit ''ORBITAL ENERGIES'') line" "st' = st\<lparr>parse := True\<rparr>"
  | (columns) "\<not> py_in (lit ''ORBITAL ENERGIES'') line" "py_in (lit ''E(Eh)'') line"
      "st' = st\<lparr>orbitals_start := True\<rparr>"
  | (rules) s1 s2 where "\<not> py_in (lit ''ORBITAL ENERGIES'') line" "\<not> py_in (lit ''E(Eh)'') line"
      "orbital_row st line = Inr s1" "dipole_rules s1 line = Inr s2" "thermo_rules s2 line = Inr st'"
  using assms by (auto simp: loop_body_def ebind_eq_Inr split: if_splits)

lemma subset_chain3:
  "D1 \<subseteq> D0 \<union> A \<Longrightarrow> D2 \<subseteq> D1 \<union> B \<Longrightarrow> D3 \<subseteq> D2 \<union> C \<Longrightarrow> D3 \<subseteq> D0 \<union> (A \<union> B \<union> C)"
  by blast

lemma subset_step: "D1 \<subseteq> D0 \<union> V \<Longrightarrow> D2 \<subseteq> D1 \<union> V \<Longrightarrow> D2 \<subseteq> D0 \<union> V"
  by blast

lemma subset_start: "D0 = {k} \<Longrightarrow> k \<in> V \<Longrightarrow> D1 \<subseteq> D0 \<union> (V - {k}) \<Longrightarrow> D1 \<subseteq> V"
  by blast

lemma new_keys_vocabulary:
  "{''HOMO (Eh)'', ''HOMO (eV)'', ''LUMO (Eh)'', ''LUMO (eV)''} \<union>
   {''Dipole Moment'', ''polarizability''} \<union> {''U'', ''H'', ''S'', ''G'', ''A'', ''B'', ''C''}
   \<subseteq> vocabulary - {''smiles''}"
  unfolding vocabulary_def by (intro Un_least insert_subsetI empty_subsetI) simp_all

lemma smiles_vocabulary: "''smiles'' \<in> vocabulary"
  by (simp add: vocabulary_def)

lemma loop_body_dom:
  assumes "loop_body st line = Inr st'"
  shows "dom (props st') \<subseteq> dom (props st) \<union> (vocabulary - {''smiles''})"
  using assms
proof (cases rule: loop_body_cases)
  case header
  have "props st' = props st" by (simp add: header(2))
  then show ?thesis by (simp only: Un_upper1)
next
  case columns
  have "props st' = props st" by (simp add: columns(3))
  then show ?thesis by (simp only: Un_upper1)
next
  case (rules s1 s2)
  have "dom (props st') \<subseteq> dom (props st) \<union>
      ({''HOMO (Eh)'', ''HOMO (eV)'', ''LUMO (Eh)'', ''LUMO (eV)''} \<union>
       {''Dipole Moment'', ''polarizability''} \<union> {''U'', ''H'', ''S'', ''G'', ''A'', ''B'', ''C''})"
    by (rule subset_chain3 [OF orbital_row_dom [OF rules(3)] dipole_rules_dom [OF rules(4)]
          thermo_rules_dom [OF rules(5)]])
  also have "\<dots> \<subseteq> dom (props st) \<union> (vocabulary - {''smiles''})"
    by (rule Un_mono [OF subset_refl new_keys_vocabulary])
  finally show ?thesis .
qed

lemma smiles_not_new:
  "''smiles'' \<notin> {''HOMO (Eh)'', ''HOMO (eV)'', ''LUMO (Eh)'', ''LUMO (eV)''}"
  "''smiles'' \<notin> {''Dipole Moment'', ''polarizability''}"
  "''smiles'' \<notin> {''U'', ''H'', ''S'', ''G'', ''A'', ''B'', ''C''}"
  by simp_all

lemma loop_body_smiles:
  assumes "loop_body st line = Inr st'"
  shows "props st' ''smiles'' = props st ''smiles''"
  using assms
proof (cases rule: loop_body_cases)
  case (rules s1 s2)
  show ?thesis
    using orbital_row_frame [OF rules(3) smiles_not_new(1)]
      dipole_rules_frame [OF rules(4) smiles_not_new(2)]
      thermo_rules_frame [OF rules(5) smiles_not_new(3)]
    by (simp only:)
qed simp_all

lemma scan_Cons_Inr:
  "scan st (line # out) = Inr st' \<longleftrightarrow> (\<exists>s. loop_body st line = Inr s \<and> scan s out = Inr st')"
  by (simp add: ebind_eq_Inr)

lemma scan_dom:
  "scan st out = Inr st' \<Longrightarrow> dom (props st') \<subseteq> dom (props st) \<union> (vocabulary - {''smiles''})"
proof (induction out arbitrary: st)
  case Nil
  then show ?case by simp
next
  case (Cons line out)
  from Cons.prems obtain s where s: "loop_body st line = Inr s" and r: "scan s out = Inr st'"
    unfolding scan_Cons_Inr by blast
  show ?case by (rule subset_step [OF loop_body_dom [OF s] Cons.IH [OF r]])
qed

lemma scan_smiles:
  "scan st out = Inr st' \<Longrightarrow> props st' ''smiles'' = props st ''smiles''"
proof (induction out arbitrary: st)
  case Nil
  then show ?case by simp
next
  case (Cons line out)
  from Cons.prems obtain s where s: "loop_body st line = Inr s" and r: "scan s out = Inr st'"
    unfolding scan_Cons_Inr by blast
  show ?case using loop_body_smiles [OF s] Cons.IH [OF r] by (simp only:)
qed

lemma orca_reader_Inr:
  "orca_reader E smiles nb = Inr m \<longleftrightarrow>
   (\<exists>out st. open_readlines E (out_name nb) = Inr out \<and> scan (initial smiles) out = Inr st \<and>
      m = props st)"
  by (auto simp: orca_reader_def ebind_eq_Inr)

section \<open>The keys of a returned dictionary\<close>

text \<open>
  C9. Whenever \<open>orca_reader smiles nb\<close> returns, the dictionary binds \<open>smiles\<close> to the
  identifier it was given, and every key of it is one of the fourteen keys of the
  vocabulary, whatever the report holds.
\<close>

theorem orca_reader_keys:
  assumes "orca_reader E smiles nb = Inr m"
  shows "m ''smiles'' = Some smiles \<and> dom m \<subseteq> vocabulary"
proof -
  from assms obtain out st where
    sc: "scan (initial smiles) out = Inr st" and m: "m = props st"
    unfolding orca_reader_Inr by blast
  have "props st ''smiles'' = Some smiles"
    using scan_smiles [OF sc] by (simp add: initial_def)
  moreover have "dom (props (initial smiles)) = {''smiles''}"
    by (simp add: initial_def)
  then have "dom (props st) \<subseteq> vocabulary"
    by (rule subset_start [OF _ smiles_vocabulary scan_dom [OF sc]])
  ultimately show ?thesis by (simp only: m simp_thms)
qed

theorem orca_reader_keys_witness:
  "orca_reader sample_env (lit ''O'') 0 = Inr (sample_props (lit ''O'')) \<and>
   sample_props (lit ''O'') ''smiles'' = Some (lit ''O'') \<and>
   dom (sample_props (lit ''O'')) \<subseteq> vocabulary"
  using orca_reader_keys [OF sample_reader_0 [of "lit ''O''"]] sample_reader_0 [of "lit ''O''"]
  by (simp only: simp_thms)

section \<open>Reports with missing sections\<close>

lemma loop_body_closed:
  assumes "\<not> section_header line" "\<not> parse st"
  shows "loop_body st line = Inr (if py_in (lit ''E(Eh)'') line then st\<lparr>orbitals_start := True\<rparr> else st)"
  using assms
  by (simp add: section_header_def loop_body_def orbital_row_def dipole_rules_def thermo_rules_def
      token_rule_def rotational_rule_def)

lemma scan_closed:
  "\<forall>line\<in>set out. \<not> section_header line \<Longrightarrow> \<not> parse st \<Longrightarrow>
   \<exists>st'. scan st out = Inr st' \<and> props st' = props st \<and> \<not> parse st'"
proof (induction out arbitrary: st)
  case Nil
  then show ?case by simp
next
  case (Cons line out)
  let ?s = "if py_in (lit ''E(Eh)'') line then st\<lparr>orbitals_start := True\<rparr> else st"
  have b: "loop_body st line = Inr ?s"
    using Cons.prems by (simp add: loop_body_closed)
  have "\<not> parse ?s" using Cons.prems(2) by simp
  with Cons.IH [of ?s] Cons.prems(1) obtain st' where
    "scan ?s out = Inr st'" "props st' = props ?s" "\<not> parse st'" by auto
  then show ?case by (simp add: b)
qed

lemma dipole_rules_magnitude:
  "dipole_rules st line = Inr st' \<Longrightarrow> \<not> py_in (lit ''Magnitude (Debye)'') line \<Longrightarrow>
   props st' ''Dipole Moment'' = props st ''Dipole Moment''"
  by (auto simp: dipole_rules_def Let_def ebind_eq_Inr split: if_splits)

lemma dipole_rules_isotropic:
  "dipole_rules st line = Inr st' \<Longrightarrow> \<not> py_in (lit ''Isotropic polarizability'') line \<Longrightarrow>
   props st' ''polarizability'' = props st ''polarizability''"
  by (auto simp: dipole_rules_def Let_def ebind_eq_Inr split: if_splits)

lemma token_rule_absent:
  "token_rule phrase i key st line = Inr st' \<Longrightarrow> \<not> py_in (lit phrase) line \<Longrightarrow> st' = st"
  by (simp add: token_rule_def)

lemma rotational_rule_absent:
  "rotational_rule st line = Inr st' \<Longrightarrow> \<not> py_in (lit ''Rotational constants in cm-1:'') line \<Longrightarrow>
   st' = st"
  by (simp add: rotational_rule_def)

lemma thermo_rules_absent:
  assumes "thermo_rules st line = Inr st'"
    and "(k, ph) \<in> {(''U'', ''Total thermal energy''), (''H'', ''Total Enthalpy''),
      (''S'', ''Final entropy term''), (''G'', ''Final Gibbs'')}"
    and "\<not> py_in (lit ph) line"
  shows "props st' k = props st k"
  using assms(1)
proof (rule thermo_rules_steps)
  fix s1 s2 s3 s4 s5
  assume s1: "s1 = (if py_in (lit ''INNER ENERGY'') line then st\<lparr>parse := True\<rparr> else st)"
    and s2: "token_rule ''Total thermal energy'' 3 ''U'' s1 line = Inr s2"
    and s3: "token_rule ''Total Enthalpy'' 3 ''H'' s2 line = Inr s3"
    and s4: "token_rule ''Final entropy term'' 4 ''S'' s3 line = Inr s4"
    and s5: "token_rule ''Final Gibbs'' 5 ''G'' s4 line = Inr s5"
    and s6: "rotational_rule s5 line = Inr st'"
  have p: "props s1 = props st" by (simp add: s1)
  have r: "props st' k = props s5 k"
    using assms(2) by (intro rotational_rule_frame [OF s6]) auto
  from assms(2) consider (U) "k = ''U''" "ph = ''Total thermal energy''"
    | (H) "k = ''H''" "ph = ''Total Enthalpy''"
    | (S) "k = ''S''" "ph = ''Final entropy term''"
    | (G) "k = ''G''" "ph = ''Final Gibbs''"
    by auto
  then have "props s5 k = props s1 k"
  proof cases
    case U
    have "s2 = s1" using token_rule_absent [OF s2] assms(3) U by simp
    then show ?thesis
      using token_rule_frame [OF s3, of k] token_rule_frame [OF s4, of k]
        token_rule_frame [OF s5, of k] U by simp
  next
    case H
    have "s3 = s2" using token_rule_absent [OF s3] assms(3) H by simp
    then show ?thesis
      using token_rule_frame [OF s2, of k] token_rule_frame [OF s4, of k]
        token_rule_frame [OF s5, of k] H by simp
  next
    case S
    have "s4 = s3" using token_rule_absent [OF s4] assms(3) S by simp
    then show ?thesis
      using token_rule_frame [OF s2, of k] token_rule_frame [OF s3, of k]
        token_rule_frame [OF s5, of k] S by simp
  next
    case G
    have "s5 = s4" using token_rule_absent [OF s5] assms(3) G by simp
    then show ?thesis
      using token_rule_frame [OF s2, of k] token_rule_frame [OF s3, of k]
        token_rule_frame [OF s4, of k] G by simp
  qed
  with r p show ?thesis by simp
qed

lemma thermo_rules_rotational_absent:
  assumes "thermo_rules st line = Inr st'"
    and "k \<in> {''A'', ''B'', ''C''}"
    and "\<not> py_in (lit ''Rotational constants in cm-1:'') line"
  shows "props st' k = props st k"
  using assms(1)
proof (rule thermo_rules_steps)
  fix s1 s2 s3 s4 s5
  assume s1: "s1 = (if py_in (lit ''INNER ENERGY'') line then st\<lparr>parse := True\<rparr> else st)"
    and s2: "token_rule ''Total thermal energy'' 3 ''U'' s1 line = Inr s2"
    and s3: "token_rule ''Total Enthalpy'' 3 ''H'' s2 line = Inr s3"
    and s4: "token_rule ''Final entropy term'' 4 ''S'' s3 line = Inr s4"
    and s5: "token_rule ''Final Gibbs'' 5 ''G'' s4 line = Inr s5"
    and s6: "rotational_rule s5 line = Inr st'"
  have p: "props s1 = props st" by (simp add: s1)
  have "st' = s5" by (rule rotational_rule_absent [OF s6 assms(3)])
  then show ?thesis
    using token_rule_frame [OF s2, of k] token_rule_frame [OF s3, of k]
      token_rule_frame [OF s4, of k] token_rule_frame [OF s5, of k] p assms(2)
    by auto
qed

lemma dipole_rules_orbitals_start:
  "dipole_rules st line = Inr st' \<Longrightarrow> orbitals_start st' = orbitals_start st"
  by (auto simp: dipole_rules_def Let_def ebind_eq_Inr split: if_splits)

lemma token_rule_orbitals_start:
  "token_rule phrase i key st line = Inr st' \<Longrightarrow> orbitals_start st' = orbitals_start st"
  by (auto simp: token_rule_def ebind_eq_Inr split: if_splits)

lemma rotational_rule_orbitals_start:
  "rotational_rule st line = Inr st' \<Longrightarrow> orbitals_start st' = orbitals_start st"
  by (auto simp: rotational_rule_def split: if_splits list.splits)

lemma thermo_rules_orbitals_start:
  assumes "thermo_rules st line = Inr st'"
  shows "orbitals_start st' = orbitals_start st"
  using assms
proof (rule thermo_rules_steps)
  fix s1 s2 s3 s4 s5
  assume s1: "s1 = (if py_in (lit ''INNER ENERGY'') line then st\<lparr>parse := True\<rparr> else st)"
    and s2: "token_rule ''Total thermal energy'' 3 ''U'' s1 line = Inr s2"
    and s3: "token_rule ''Total Enthalpy'' 3 ''H'' s2 line = Inr s3"
    and s4: "token_rule ''Final entropy term'' 4 ''S'' s3 line = Inr s4"
    and s5: "token_rule ''Final Gibbs'' 5 ''G'' s4 line = Inr s5"
    and s6: "rotational_rule s5 line = Inr st'"
  have "orbitals_start s1 = orbitals_start st" by (simp add: s1)
  then show ?thesis
    using token_rule_orbitals_start [OF s2] token_rule_orbitals_start [OF s3]
      token_rule_orbitals_start [OF s4] token_rule_orbitals_start [OF s5]
      rotational_rule_orbitals_start [OF s6]
    by simp
qed

lemma orbital_row_idle: "\<not> (parse st \<and> orbitals_start st) \<Longrightarrow> orbital_row st line = Inr st"
  unfolding orbital_row_def by (simp only: if_False)

lemma loop_body_no_columns:
  assumes "loop_body st line = Inr st'" "\<not> orbitals_start st" "\<not> py_in (lit ''E(Eh)'') line"
  shows "\<not> orbitals_start st'"
    and "k \<in> {''HOMO (Eh)'', ''HOMO (eV)'', ''LUMO (Eh)'', ''LUMO (eV)''} \<Longrightarrow> props st' k = props st k"
proof -
  have "\<not> orbitals_start st' \<and>
    (k \<in> {''HOMO (Eh)'', ''HOMO (eV)'', ''LUMO (Eh)'', ''LUMO (eV)''} \<longrightarrow> props st' k = props st k)"
    using assms(1)
  proof (cases rule: loop_body_cases)
    case header
    then show ?thesis using assms(2) by simp
  next
    case columns
    then show ?thesis using assms(3) by simp
  next
    case (rules s1 s2)
    have s1: "s1 = st" using rules(3) assms(2) by (simp add: orbital_row_idle)
    have "orbitals_start st' = orbitals_start st"
      using dipole_rules_orbitals_start [OF rules(4)] thermo_rules_orbitals_start [OF rules(5)] s1
      by simp
    moreover have "props st' k = props st k"
      if "k \<in> {''HOMO (Eh)'', ''HOMO (eV)'', ''LUMO (Eh)'', ''LUMO (eV)''}"
    proof -
      have "props st' k = props s2 k"
        using that by (intro thermo_rules_frame [OF rules(5)]) auto
      moreover have "props s2 k = props s1 k"
        using that by (intro dipole_rules_frame [OF rules(4)]) auto
      ultimately show ?thesis by (simp add: s1)
    qed
    ultimately show ?thesis using assms(2) by simp
  qed
  then show "\<not> orbitals_start st'"
    and "k \<in> {''HOMO (Eh)'', ''HOMO (eV)'', ''LUMO (Eh)'', ''LUMO (eV)''} \<Longrightarrow> props st' k = props st k"
    by simp_all
qed

lemma absent_moment:
  assumes b: "loop_body st line = Inr st'" and absent: "\<not> py_in (lit ''Magnitude (Debye)'') line"
  shows "props st' ''Dipole Moment'' = props st ''Dipole Moment''"
  using b
proof (cases rule: loop_body_cases)
  case (rules s1 s2)
  have "props s1 ''Dipole Moment'' = props st ''Dipole Moment''"
    by (intro orbital_row_frame [OF rules(3)]) simp
  moreover have "props s2 ''Dipole Moment'' = props s1 ''Dipole Moment''"
    by (rule dipole_rules_magnitude [OF rules(4) absent])
  moreover have "props st' ''Dipole Moment'' = props s2 ''Dipole Moment''"
    by (intro thermo_rules_frame [OF rules(5)]) simp
  ultimately show ?thesis by simp
qed simp_all

lemma absent_polar:
  assumes b: "loop_body st line = Inr st'"
    and absent: "\<not> py_in (lit ''Isotropic polarizability'') line"
  shows "props st' ''polarizability'' = props st ''polarizability''"
  using b
proof (cases rule: loop_body_cases)
  case (rules s1 s2)
  have "props s1 ''polarizability'' = props st ''polarizability''"
    by (intro orbital_row_frame [OF rules(3)]) simp
  moreover have "props s2 ''polarizability'' = props s1 ''polarizability''"
    by (rule dipole_rules_isotropic [OF rules(4) absent])
  moreover have "props st' ''polarizability'' = props s2 ''polarizability''"
    by (intro thermo_rules_frame [OF rules(5)]) simp
  ultimately show ?thesis by simp
qed simp_all

lemma absent_thermo:
  assumes b: "loop_body st line = Inr st'"
    and kp: "(k, ph) \<in> {(''U'', ''Total thermal energy''), (''H'', ''Total Enthalpy''),
        (''S'', ''Final entropy term''), (''G'', ''Final Gibbs'')}"
    and absent: "\<not> py_in (lit ph) line"
  shows "props st' k = props st k"
  using b
proof (cases rule: loop_body_cases)
  case (rules s1 s2)
  have k: "k \<in> {''U'', ''H'', ''S'', ''G''}" using kp by auto
  have "props s1 k = props st k"
    using k by (intro orbital_row_frame [OF rules(3)]) auto
  moreover have "props s2 k = props s1 k"
    using k by (intro dipole_rules_frame [OF rules(4)]) auto
  moreover have "props st' k = props s2 k"
    by (rule thermo_rules_absent [OF rules(5) kp absent])
  ultimately show ?thesis by simp
qed simp_all

lemma absent_rotational:
  assumes b: "loop_body st line = Inr st'"
    and k: "k \<in> {''A'', ''B'', ''C''}"
    and absent: "\<not> py_in (lit ''Rotational constants in cm-1:'') line"
  shows "props st' k = props st k"
  using b
proof (cases rule: loop_body_cases)
  case (rules s1 s2)
  have "props s1 k = props st k"
    using k by (intro orbital_row_frame [OF rules(3)]) auto
  moreover have "props s2 k = props s1 k"
    using k by (intro dipole_rules_frame [OF rules(4)]) auto
  moreover have "props st' k = props s2 k"
    by (rule thermo_rules_rotational_absent [OF rules(5) k absent])
  ultimately show ?thesis by simp
qed simp_all

lemma value_phrases_cases:
  assumes "(k, ph) \<in> set value_phrases"
  obtains
      (orbital) "k \<in> {''HOMO (Eh)'', ''HOMO (eV)'', ''LUMO (Eh)'', ''LUMO (eV)''}" "ph = ''E(Eh)''"
    | (moment) "k = ''Dipole Moment''" "ph = ''Magnitude (Debye)''"
    | (polar) "k = ''polarizability''" "ph = ''Isotropic polarizability''"
    | (thermo) "(k, ph) \<in> {(''U'', ''Total thermal energy''), (''H'', ''Total Enthalpy''),
        (''S'', ''Final entropy term''), (''G'', ''Final Gibbs'')}"
    | (rotational) "k \<in> {''A'', ''B'', ''C''}" "ph = ''Rotational constants in cm-1:''"
proof -
  from assms have
    "(k = ''HOMO (Eh)'' \<and> ph = ''E(Eh)'') \<or> (k = ''HOMO (eV)'' \<and> ph = ''E(Eh)'') \<or>
     (k = ''LUMO (Eh)'' \<and> ph = ''E(Eh)'') \<or> (k = ''LUMO (eV)'' \<and> ph = ''E(Eh)'') \<or>
     (k = ''Dipole Moment'' \<and> ph = ''Magnitude (Debye)'') \<or>
     (k = ''polarizability'' \<and> ph = ''Isotropic polarizability'') \<or>
     (k = ''U'' \<and> ph = ''Total thermal energy'') \<or> (k = ''H'' \<and> ph = ''Total Enthalpy'') \<or>
     (k = ''S'' \<and> ph = ''Final entropy term'') \<or> (k = ''G'' \<and> ph = ''Final Gibbs'') \<or>
     (k = ''A'' \<and> ph = ''Rotational constants in cm-1:'') \<or>
     (k = ''B'' \<and> ph = ''Rotational constants in cm-1:'') \<or>
     (k = ''C'' \<and> ph = ''Rotational constants in cm-1:'')"
    by (simp only: value_phrases_def list.set insert_iff empty_iff prod.inject simp_thms)
  then show thesis
    apply (elim disjE conjE)
                apply (rule orbital, simp only: insert_iff simp_thms, assumption)
               apply (rule orbital, simp only: insert_iff simp_thms, assumption)
              apply (rule orbital, simp only: insert_iff simp_thms, assumption)
             apply (rule orbital, simp only: insert_iff simp_thms, assumption)
            apply (rule moment, assumption, assumption)
           apply (rule polar, assumption, assumption)
          apply (rule thermo, simp only: insert_iff prod.inject simp_thms)
         apply (rule thermo, simp only: insert_iff prod.inject simp_thms)
        apply (rule thermo, simp only: insert_iff prod.inject simp_thms)
       apply (rule thermo, simp only: insert_iff prod.inject simp_thms)
      apply (rule rotational, simp only: insert_iff simp_thms, assumption)
     apply (rule rotational, simp only: insert_iff simp_thms, assumption)
    apply (rule rotational, simp only: insert_iff simp_thms, assumption)
    done
qed

lemma loop_body_absent:
  assumes b: "loop_body st line = Inr st'"
    and kp: "(k, ph) \<in> set value_phrases"
    and absent: "\<not> py_in (lit ph) line"
    and idle: "ph = ''E(Eh)'' \<Longrightarrow> \<not> orbitals_start st"
  shows "props st' k = props st k"
  using kp
proof (cases rule: value_phrases_cases)
  case orbital
  have "\<not> py_in (lit ''E(Eh)'') line" using absent by (simp only: orbital(2) simp_thms)
  from loop_body_no_columns(2) [OF b idle [OF orbital(2)] this orbital(1)] show ?thesis .
next
  case moment
  have "\<not> py_in (lit ''Magnitude (Debye)'') line" using absent by (simp only: moment(2) simp_thms)
  from absent_moment [OF b this] show ?thesis by (simp only: moment(1))
next
  case polar
  have "\<not> py_in (lit ''Isotropic polarizability'') line" using absent by (simp only: polar(2) simp_thms)
  from absent_polar [OF b this] show ?thesis by (simp only: polar(1))
next
  case thermo
  from absent_thermo [OF b thermo absent] show ?thesis .
next
  case rotational
  have "\<not> py_in (lit ''Rotational constants in cm-1:'') line"
    using absent by (simp only: rotational(2) simp_thms)
  from absent_rotational [OF b rotational(1) this] show ?thesis .
qed


lemma scan_absent:
  assumes "scan st out = Inr st'"
    and "(k, ph) \<in> set value_phrases"
    and "\<forall>line\<in>set out. \<not> py_in (lit ph) line"
    and "ph = ''E(Eh)'' \<Longrightarrow> \<not> orbitals_start st"
  shows "props st' k = props st k"
  using assms(1,3,4)
proof (induction out arbitrary: st)
  case Nil
  then show ?case by simp
next
  case (Cons line out)
  from Cons.prems(1) obtain s where s: "loop_body st line = Inr s" and r: "scan s out = Inr st'"
    unfolding scan_Cons_Inr by blast
  have absent: "\<not> py_in (lit ph) line" using Cons.prems(2) by simp
  have rest: "\<forall>line\<in>set out. \<not> py_in (lit ph) line" using Cons.prems(2) by simp
  have idle: "\<not> orbitals_start s" if ph: "ph = ''E(Eh)''"
  proof -
    have "\<not> py_in (lit ''E(Eh)'') line" using absent by (simp only: ph simp_thms)
    from loop_body_no_columns(1) [OF s Cons.prems(3) [OF ph] this] show ?thesis .
  qed
  have "props s k = props st k"
    by (rule loop_body_absent [OF s assms(2) absent Cons.prems(3)])
  moreover have "props st' k = props s k"
    by (rule Cons.IH [OF r rest idle])
  ultimately show ?case by simp
qed

lemma value_phrases_not_smiles: "(k, ph) \<in> set value_phrases \<Longrightarrow> k \<noteq> ''smiles''"
  by (erule value_phrases_cases) auto

text \<open>
  C2, as amended. \<open>orca_reader\<close> does not fail because a header phrase is absent. When
  the report file can be read and none of its lines holds one of the three section
  headers, the reader returns the dictionary that binds only \<open>smiles\<close>. Whenever it
  returns, a property whose value phrase stands on no line of the report is left out
  of the dictionary.
\<close>

theorem orca_reader_absent_phrases:
  assumes "open_readlines E (out_name nb) = Inr out"
  shows "((\<forall>line\<in>set out. \<not> section_header line) \<longrightarrow>
            orca_reader E smiles nb = Inr [''smiles'' \<mapsto> smiles]) \<and>
         (\<forall>m k ph. orca_reader E smiles nb = Inr m \<and> (k, ph) \<in> set value_phrases \<and>
            (\<forall>line\<in>set out. \<not> py_in (lit ph) line) \<longrightarrow> m k = None)"
proof (intro conjI impI allI)
  assume "\<forall>line\<in>set out. \<not> section_header line"
  from scan_closed [OF this, of "initial smiles"] obtain st' where
    "scan (initial smiles) out = Inr st'" "props st' = props (initial smiles)"
    by (auto simp: initial_def)
  then show "orca_reader E smiles nb = Inr [''smiles'' \<mapsto> smiles]"
    by (simp add: orca_reader_def assms initial_def)
next
  fix m k ph
  assume a: "orca_reader E smiles nb = Inr m \<and> (k, ph) \<in> set value_phrases \<and>
    (\<forall>line\<in>set out. \<not> py_in (lit ph) line)"
  then obtain st where sc: "scan (initial smiles) out = Inr st" and m: "m = props st"
    unfolding orca_reader_Inr using assms by auto
  have "props st k = props (initial smiles) k"
  proof (rule scan_absent [OF sc])
    show "(k, ph) \<in> set value_phrases" using a by blast
    show "\<forall>line\<in>set out. \<not> py_in (lit ph) line" using a by blast
    show "\<not> orbitals_start (initial smiles)" by (simp add: initial_def)
  qed
  moreover have "k \<noteq> ''smiles''" using a value_phrases_not_smiles by blast
  ultimately show "m k = None" by (simp add: m initial_def)
qed

theorem orca_reader_absent_phrases_witness:
  "open_readlines sample_env (out_name 3) = Inr (map (\<lambda>l. lit l @ [10]) (take 4 sample_report)) \<and>
   orca_reader sample_env (lit ''O'') 3 = Inr (orbital_props (lit ''O'')) \<and>
   orbital_props (lit ''O'') ''Dipole Moment'' = None \<and>
   open_readlines sample_env (out_name 1) = Inr [] \<and>
   orca_reader sample_env (lit ''O'') 1 = Inr [''smiles'' \<mapsto> lit ''O'']"
proof -
  have absent: "\<forall>line\<in>set (map (\<lambda>l. lit l @ [10]) (take 4 sample_report)).
      \<not> py_in (lit ''Magnitude (Debye)'') line"
    by (simp add: sample_report_def lit_def)
  have kp: "(''Dipole Moment'', ''Magnitude (Debye)'') \<in> set value_phrases"
    by (simp add: value_phrases_def)
  have "orbital_props (lit ''O'') ''Dipole Moment'' = None"
    using orca_reader_absent_phrases [OF sample_read_3, of "lit ''O''"] sample_reader_3 absent kp
    by blast
  moreover have "orca_reader sample_env (lit ''O'') 1 = Inr [''smiles'' \<mapsto> lit ''O'']"
    using orca_reader_absent_phrases [OF sample_read_1, of "lit ''O''"] by simp
  ultimately show ?thesis
    using sample_read_3 sample_read_1 sample_reader_3 by blast
qed

text \<open>
  C2 as stated fails: the fourth sample report holds neither \<open>DIPOLE MOMENT\<close> nor
  \<open>INNER ENERGY\<close>, and the reader returns a dictionary without the dipole moment and
  without \<open>U\<close>.
\<close>

theorem orca_reader_omits:
  "open_readlines sample_env (out_name 3) = Inr (map (\<lambda>l. lit l @ [10]) (take 4 sample_report)) \<and>
   \<not> list_ex (py_in (lit ''DIPOLE MOMENT'')) (map (\<lambda>l. lit l @ [10]) (take 4 sample_report)) \<and>
   \<not> list_ex (py_in (lit ''INNER ENERGY'')) (map (\<lambda>l. lit l @ [10]) (take 4 sample_report)) \<and>
   orca_reader sample_env (lit ''O'') 3 = Inr (orbital_props (lit ''O'')) \<and>
   orbital_props (lit ''O'') ''Dipole Moment'' = None \<and>
   orbital_props (lit ''O'') ''U'' = None"
  using sample_reader_3 [of "lit ''O''"] sample_read_3
  by (simp add: orbital_props_def sample_report_def lit_def)

section \<open>One job and a batch of jobs\<close>

lemma last_inp_name: "last (inp_name nb) = 112"
  by (simp add: inp_name_def lit_def)

lemma last_out: "last (smiles @ lit ''.out'') = 116"
  by (simp add: lit_def)

lemma inp_name_not_log:
  "inp_name nb \<noteq> lit ''done.log''" "inp_name nb \<noteq> lit ''undone.log''"
proof -
  have "last (lit ''done.log'') = 103" "last (lit ''undone.log'') = 103"
    by (simp_all add: lit_def)
  then show "inp_name nb \<noteq> lit ''done.log''" "inp_name nb \<noteq> lit ''undone.log''"
    using last_inp_name [of nb] by auto
qed

lemma out_not_written:
  "smiles @ lit ''.out'' \<noteq> inp_name nb"
  "smiles @ lit ''.out'' \<noteq> lit ''done.log''"
  "smiles @ lit ''.out'' \<noteq> lit ''undone.log''"
proof -
  have "last (lit ''done.log'') = 103" "last (lit ''undone.log'') = 103"
    by (simp_all add: lit_def)
  then show "smiles @ lit ''.out'' \<noteq> inp_name nb"
    "smiles @ lit ''.out'' \<noteq> lit ''done.log''"
    "smiles @ lit ''.out'' \<noteq> lit ''undone.log''"
    using last_inp_name [of nb] last_out [of smiles] by auto
qed

lemma logs_differ: "lit ''done.log'' \<noteq> lit ''undone.log''"
  by (simp add: lit_def)

lemma orcanize_Inr:
  "orcanize E smiles nb w = Inr (r, w') \<longleftrightarrow>
   (\<exists>output charge radicals.
      rdkit E smiles = Some (output, charge, radicals) \<and> launches E (orca_args smiles) \<and>
      r = parsed E (nat nb, smiles) \<and>
      w' = append_file (log_name r) (log_line nb smiles)
             (write_file (inp_name nb) (file_output output charge radicals) w
                \<lparr>calls := calls w @ [orca_args smiles]\<rparr>))" if "0 \<le> nb"
  using that
  by (auto simp: orcanize_def orca_generator_def subprocess_run_def ebind_eq_Inr parsed_def
      log_name_def write_file_def split: option.splits sum.splits)


lemma orcanize_returns:
  assumes "rdkit E smiles \<noteq> None" "launches E (orca_args smiles)"
  shows "\<exists>w'. orcanize E smiles (int nb) w = Inr (parsed E (nb, smiles), w')"
proof -
  from assms(1) obtain xyz charge radicals where
    "rdkit E smiles = Some (xyz, charge, radicals)" by (cases "rdkit E smiles") auto
  with assms(2) show ?thesis
    using orcanize_Inr [where nb = "int nb" and E = E and smiles = smiles and w = w
        and r = "parsed E (nb, smiles)"] by simp
qed

lemma orcanize_effect:
  assumes "orcanize E smiles (int nb) w = Inr (r, w')"
  shows "r = parsed E (nb, smiles)"
    and "files w' (lit ''done.log'') =
         (if parses E (nb, smiles) then log_after (files w (lit ''done.log'')) [(nb, smiles)]
          else files w (lit ''done.log''))"
    and "files w' (lit ''undone.log'') =
         (if parses E (nb, smiles) then files w (lit ''undone.log'')
          else log_after (files w (lit ''undone.log'')) [(nb, smiles)])"
    and "csv w' = csv w"
    and "calls w' = calls w @ [orca_args smiles]"
proof -
  from assms obtain xyz charge radicals where
    r: "r = parsed E (nb, smiles)"
    and w': "w' = append_file (log_name r) (log_line (int nb) smiles)
             (write_file (inp_name (int nb)) (file_output xyz charge radicals) w
                \<lparr>calls := calls w @ [orca_args smiles]\<rparr>)"
    using orcanize_Inr [where nb = "int nb" and E = E and smiles = smiles and w = w
        and r = r and w' = w'] by auto
  show "r = parsed E (nb, smiles)" by (rule r)
  show "csv w' = csv w" "calls w' = calls w @ [orca_args smiles]"
    by (simp_all add: w' append_file_def write_file_def)
  define base where "base = (files w)(inp_name (int nb) \<mapsto> file_output xyz charge radicals)"
  have base_done: "base (lit ''done.log'') = files w (lit ''done.log'')"
    using inp_name_not_log(1) [of "int nb"] by (simp add: base_def)
  have base_undone: "base (lit ''undone.log'') = files w (lit ''undone.log'')"
    using inp_name_not_log(2) [of "int nb"] by (simp add: base_def)
  have fw: "files w' = base(log_name r \<mapsto>
      (case base (log_name r) of None \<Rightarrow> log_line (int nb) smiles
       | Some old \<Rightarrow> old @ log_line (int nb) smiles))"
    by (simp add: w' append_file_def write_file_def base_def)
  have one: "log_after old [(nb, smiles)] =
      Some (case old of None \<Rightarrow> log_line (int nb) smiles | Some t \<Rightarrow> t @ log_line (int nb) smiles)"
    for old
    by (cases old) (simp_all add: log_after_def)
  have p: "parses E (nb, smiles) \<longleftrightarrow> r \<noteq> None"
    by (simp add: parses_def r)
  show "files w' (lit ''done.log'') =
         (if parses E (nb, smiles) then log_after (files w (lit ''done.log'')) [(nb, smiles)]
          else files w (lit ''done.log''))"
  proof (cases r)
    case None
    then have "log_name r = lit ''undone.log''" by (simp add: log_name_def)
    then show ?thesis using logs_differ by (simp add: fw p None base_done)
  next
    case (Some d)
    then have "log_name r = lit ''done.log''" by (simp add: log_name_def)
    then show ?thesis by (simp add: fw p Some base_done one)
  qed
  show "files w' (lit ''undone.log'') =
         (if parses E (nb, smiles) then files w (lit ''undone.log'')
          else log_after (files w (lit ''undone.log'')) [(nb, smiles)])"
  proof (cases r)
    case None
    then have "log_name r = lit ''undone.log''" by (simp add: log_name_def)
    then show ?thesis by (simp add: fw p None base_undone one)
  next
    case (Some d)
    then have "log_name r = lit ''done.log''" by (simp add: log_name_def)
    then show ?thesis using logs_differ by (simp add: fw p Some base_undone)
  qed
qed

lemma log_after_Cons:
  "log_after old (e # es) = log_after (log_after old [e]) es"
  by (simp add: log_after_def)

lemma log_after_Nil [simp]: "log_after old [] = old"
  by (simp add: log_after_def)

lemma zip_upt_Cons:
  "zip [nb..<nb + Suc n] (x # xs) = (nb, x) # zip [Suc nb..<Suc nb + n] xs"
  by (simp add: upt_conv_Cons)

lemma batch_effect:
  assumes "\<forall>smiles\<in>set molecules. rdkit E smiles \<noteq> None \<and> launches E (orca_args smiles)"
  shows "\<exists>outdata' w'.
      batch E save nb molecules outdata w = Inr (outdata', w') \<and>
      outdata' = outdata @
        concat (map (\<lambda>job. DataFrame (parsed E job)) (zip [nb..<nb + length molecules] molecules)) \<and>
      files w' (lit ''done.log'') =
        log_after (files w (lit ''done.log''))
          (filter (parses E) (zip [nb..<nb + length molecules] molecules)) \<and>
      files w' (lit ''undone.log'') =
        log_after (files w (lit ''undone.log''))
          (filter (\<lambda>job. \<not> parses E job) (zip [nb..<nb + length molecules] molecules)) \<and>
      csv w' = (if save \<and> molecules \<noteq> [] then Some outdata' else csv w)"
  using assms
proof (induction molecules arbitrary: nb outdata w)
  case Nil
  show ?case by simp
next
  case (Cons smiles molecules)
  from Cons.prems have ok: "rdkit E smiles \<noteq> None" "launches E (orca_args smiles)"
    and rest: "\<forall>smiles\<in>set molecules. rdkit E smiles \<noteq> None \<and> launches E (orca_args smiles)"
    by simp_all
  from orcanize_returns [OF ok, of nb w] obtain w1 where
    o: "orcanize E smiles (int nb) w = Inr (parsed E (nb, smiles), w1)" by blast
  note eff = orcanize_effect [OF o]
  define outdata1 where "outdata1 = outdata @ DataFrame (parsed E (nb, smiles))"
  define w2 where "w2 = (if save then w1\<lparr>csv := Some outdata1\<rparr> else w1)"
  have step: "batch E save nb (smiles # molecules) outdata w =
      batch E save (Suc nb) molecules outdata1 w2"
    by (simp add: o outdata1_def w2_def Let_def)
  from Cons.IH [OF rest, of "Suc nb" outdata1 w2] obtain outdata' w' where
    b: "batch E save (Suc nb) molecules outdata1 w2 = Inr (outdata', w')"
    and t: "outdata' = outdata1 @
        concat (map (\<lambda>job. DataFrame (parsed E job)) (zip [Suc nb..<Suc nb + length molecules] molecules))"
    and d: "files w' (lit ''done.log'') =
        log_after (files w2 (lit ''done.log''))
          (filter (parses E) (zip [Suc nb..<Suc nb + length molecules] molecules))"
    and u: "files w' (lit ''undone.log'') =
        log_after (files w2 (lit ''undone.log''))
          (filter (\<lambda>job. \<not> parses E job) (zip [Suc nb..<Suc nb + length molecules] molecules))"
    and c: "csv w' = (if save \<and> molecules \<noteq> [] then Some outdata' else csv w2)"
    by (elim exE conjE) (rule that, assumption+)
  have f2: "files w2 = files w1" by (simp add: w2_def)
  have z: "zip [nb..<nb + length (smiles # molecules)] (smiles # molecules) =
      (nb, smiles) # zip [Suc nb..<Suc nb + length molecules] molecules"
    using zip_upt_Cons [of nb "length molecules" smiles molecules] by simp
  have B: "batch E save nb (smiles # molecules) outdata w = Inr (outdata', w')"
    by (simp only: step b)
  have F1: "outdata' = outdata @ concat (map (\<lambda>job. DataFrame (parsed E job))
      (zip [nb..<nb + length (smiles # molecules)] (smiles # molecules)))"
    unfolding z by (simp add: t outdata1_def)
  have F2: "files w' (lit ''done.log'') = log_after (files w (lit ''done.log''))
      (filter (parses E) (zip [nb..<nb + length (smiles # molecules)] (smiles # molecules)))"
    unfolding z
    using log_after_Cons [of "files w (lit ''done.log'')" "(nb, smiles)"
        "filter (parses E) (zip [Suc nb..<Suc nb + length molecules] molecules)"]
    by (cases "parses E (nb, smiles)") (simp_all add: d f2 eff(2))
  have F3: "files w' (lit ''undone.log'') = log_after (files w (lit ''undone.log''))
      (filter (\<lambda>job. \<not> parses E job) (zip [nb..<nb + length (smiles # molecules)] (smiles # molecules)))"
    unfolding z
    using log_after_Cons [of "files w (lit ''undone.log'')" "(nb, smiles)"
        "filter (\<lambda>job. \<not> parses E job) (zip [Suc nb..<Suc nb + length molecules] molecules)"]
    by (cases "parses E (nb, smiles)") (simp_all add: u f2 eff(3))
  have F4: "csv w' = (if save \<and> smiles # molecules \<noteq> [] then Some outdata' else csv w)"
  proof (cases "molecules = []")
    case True
    then have "outdata' = outdata1" "w' = w2" using b by simp_all
    then show ?thesis by (simp add: w2_def eff(4))
  next
    case False
    then show ?thesis by (simp add: c w2_def eff(4))
  qed
  show ?case
    by (rule exI [of _ outdata'], rule exI [of _ w']) (intro conjI B F1 F2 F3 F4)
qed

lemma reader_binds_smiles:
  assumes "orca_reader E smiles nb = Inr m"
  shows "m ''smiles'' = Some smiles"
proof -
  from assms obtain out st where
    sc: "scan (initial smiles) out = Inr st" and m: "m = props st"
    unfolding orca_reader_Inr by blast
  show ?thesis using scan_smiles [OF sc] by (simp add: m initial_def)
qed

lemma parsed_named:
  assumes "parsed E job = Some d"
  shows "named d"
proof -
  from assms have "orca_reader E (snd job) (int (fst job)) = Inr d"
    by (simp add: parsed_def split: sum.splits)
  from reader_binds_smiles [OF this] show ?thesis by (simp add: named_def)
qed

lemma named_rows:
  "filter named (concat (map (\<lambda>job. DataFrame (parsed E job)) js)) = List.map_filter (parsed E) js"
proof (induction js)
  case Nil
  show ?case by (simp add: List.map_filter_simps)
next
  case (Cons job js)
  show ?case
  proof (cases "parsed E job")
    case None
    then show ?thesis using Cons by (simp add: DataFrame_def named_def List.map_filter_simps)
  next
    case (Some d)
    then show ?thesis
      using Cons parsed_named [OF Some] by (simp add: DataFrame_def List.map_filter_simps)
  qed
qed

lemma jobs_fst: "map fst (jobs molecules) = [0..<length molecules]"
  by (simp add: jobs_def)

lemma jobs_snd: "(nb, smiles) \<in> set (jobs molecules) \<Longrightarrow> smiles = molecules ! nb \<and> nb < length molecules"
  by (auto simp: jobs_def set_zip)

lemma jobs_upt: "zip [0..<0 + length molecules] molecules = jobs molecules"
  by (simp add: jobs_def)

lemma handles_disjoint:
  "fst ` set (filter P (jobs molecules)) \<inter> fst ` set (filter (\<lambda>job. \<not> P job) (jobs molecules)) = {}"
proof (rule equals0I)
  fix nb
  assume "nb \<in> fst ` set (filter P (jobs molecules)) \<inter>
    fst ` set (filter (\<lambda>job. \<not> P job) (jobs molecules))"
  then have "nb \<in> fst ` set (filter P (jobs molecules))"
    and "nb \<in> fst ` set (filter (\<lambda>job. \<not> P job) (jobs molecules))"
    by (rule IntD1, rule IntD2)
  then obtain j1 j2 where j1: "j1 \<in> set (filter P (jobs molecules))" "nb = fst j1"
    and j2: "j2 \<in> set (filter (\<lambda>job. \<not> P job) (jobs molecules))" "nb = fst j2"
    by (elim imageE)
  obtain s1 where s1: "j1 = (nb, s1)" using j1(2) by (cases j1) simp
  obtain s2 where s2: "j2 = (nb, s2)" using j2(2) by (cases j2) simp
  have in1: "(nb, s1) \<in> set (jobs molecules)" and p1: "P (nb, s1)"
    using j1(1) by (simp_all add: s1)
  have in2: "(nb, s2) \<in> set (jobs molecules)" and p2: "\<not> P (nb, s2)"
    using j2(1) by (simp_all add: s2)
  have "s1 = s2" using jobs_snd [OF in1] jobs_snd [OF in2] by simp
  with p1 p2 show False by simp
qed

lemma filter_split_set: "set (filter P xs) \<union> set (filter (\<lambda>x. \<not> P x) xs) = set xs"
  by (induction xs) auto

lemma handles_cover:
  "fst ` set (filter P (jobs molecules)) \<union> fst ` set (filter (\<lambda>job. \<not> P job) (jobs molecules)) =
   {0..<length molecules}"
proof -
  have "fst ` set (filter P (jobs molecules)) \<union> fst ` set (filter (\<lambda>job. \<not> P job) (jobs molecules)) =
      fst ` set (jobs molecules)"
    by (simp only: image_Un [symmetric] filter_split_set)
  also have "\<dots> = set (map fst (jobs molecules))" by simp
  also have "\<dots> = {0..<length molecules}" by (simp only: jobs_fst set_upt)
  finally show ?thesis .
qed

lemma handles_count:
  "length (filter P (jobs molecules)) + length (filter (\<lambda>job. \<not> P job) (jobs molecules)) =
   length molecules"
  using sum_length_filter_compl [of P "jobs molecules"] by (simp add: jobs_def)

text \<open>
  C4. When the builder accepts every molecule of the batch and the program can be
  started for each (an exception of either aborts the batch), \<open>orcanize_many\<close> returns,
  and the text appended to \<open>done.log\<close> is the lines \<open>nb smiles\<close> of the jobs whose
  report parsed, the text appended to \<open>undone.log\<close> the lines of the other jobs, each
  in the order of the batch. The handles of the two logs are disjoint, together they
  are \<open>0..N-1\<close>, the two logs hold \<open>N\<close> entries, and every handle stands with its
  own molecule.
\<close>

theorem batch_logs_partition:
  assumes "\<forall>smiles\<in>set molecules. rdkit E smiles \<noteq> None \<and> launches E (orca_args smiles)"
  shows "\<exists>outdata w'.
     orcanize_many E molecules save w = Inr (outdata, w') \<and>
     files w' (lit ''done.log'') =
       log_after (files w (lit ''done.log'')) (filter (parses E) (jobs molecules)) \<and>
     files w' (lit ''undone.log'') =
       log_after (files w (lit ''undone.log'')) (filter (\<lambda>job. \<not> parses E job) (jobs molecules)) \<and>
     fst ` set (filter (parses E) (jobs molecules)) \<inter>
       fst ` set (filter (\<lambda>job. \<not> parses E job) (jobs molecules)) = {} \<and>
     fst ` set (filter (parses E) (jobs molecules)) \<union>
       fst ` set (filter (\<lambda>job. \<not> parses E job) (jobs molecules)) = {0..<length molecules} \<and>
     length (filter (parses E) (jobs molecules)) +
       length (filter (\<lambda>job. \<not> parses E job) (jobs molecules)) = length molecules \<and>
     (\<forall>job\<in>set (jobs molecules). snd job = molecules ! fst job)"
proof -
  from batch_effect [OF assms, of save 0 "[]" w] obtain outdata w' where
    b: "batch E save 0 molecules [] w = Inr (outdata, w')"
    and d: "files w' (lit ''done.log'') = log_after (files w (lit ''done.log''))
        (filter (parses E) (zip [0..<0 + length molecules] molecules))"
    and u: "files w' (lit ''undone.log'') = log_after (files w (lit ''undone.log''))
        (filter (\<lambda>job. \<not> parses E job) (zip [0..<0 + length molecules] molecules))"
    by (elim exE conjE) (rule that, assumption+)
  have pair: "\<forall>job\<in>set (jobs molecules). snd job = molecules ! fst job"
    using jobs_snd [of _ _ molecules] by auto
  show ?thesis
    apply (rule exI [of _ outdata], rule exI [of _ w'])
    apply (intro conjI)
          apply (simp only: orcanize_many_def b)
         apply (simp only: d jobs_upt)
        apply (simp only: u jobs_upt)
       apply (rule handles_disjoint)
      apply (rule handles_cover)
     apply (rule handles_count)
    apply (rule pair)
    done
qed

text \<open>
  The loop of \<open>orcanize_many\<close> run on \<open>xs @ ys\<close> is the loop run on \<open>xs\<close> and then on
  \<open>ys\<close>, from the table and the files the first part has left.
\<close>

lemma batch_append:
  "batch E save nb (xs @ ys) outdata w =
     ebind (batch E save nb xs outdata w) (\<lambda>(t, wn). batch E save (nb + length xs) ys t wn)"
proof (induction xs arbitrary: nb outdata w)
  case Nil
  show ?case by simp
next
  case (Cons x xs)
  show ?case
  proof (cases "orcanize E x (int nb) w")
    case (Inl e)
    then show ?thesis by simp
  next
    case (Inr r)
    obtain dat w1 where r: "r = (dat, w1)" by (cases r)
    show ?thesis by (simp add: Inr r Let_def Cons.IH)
  qed
qed

lemma batch_after_job:
  assumes ok: "\<forall>smiles\<in>set molecules. rdkit E smiles \<noteq> None \<and> launches E (orca_args smiles)"
    and run: "batch E save 0 molecules [] w = Inr (outdata, w')"
    and n: "n < length molecules"
  shows "\<exists>t wn. orcanize_many E (take (Suc n) molecules) save w = Inr (t, wn) \<and>
      batch E save (Suc n) (drop (Suc n) molecules) t wn = Inr (outdata, w') \<and>
      filter named t = List.map_filter (parsed E) (jobs (take (Suc n) molecules)) \<and>
      (save \<longrightarrow> csv wn = Some t)"
proof -
  let ?xs = "take (Suc n) molecules"
  have okx: "\<forall>smiles\<in>set ?xs. rdkit E smiles \<noteq> None \<and> launches E (orca_args smiles)"
    using ok in_set_takeD [of _ "Suc n" molecules] by blast
  from batch_effect [OF okx, of save 0 "[]" w] obtain t wn where
    bx: "batch E save 0 ?xs [] w = Inr (t, wn)"
    and tx: "t = [] @ concat (map (\<lambda>job. DataFrame (parsed E job)) (zip [0..<0 + length ?xs] ?xs))"
    and cx: "csv wn = (if save \<and> ?xs \<noteq> [] then Some t else csv w)"
    by (elim exE conjE) (rule that, assumption+)
  have len: "length ?xs = Suc n" using n by simp
  have "batch E save 0 (?xs @ drop (Suc n) molecules) [] w =
      batch E save (Suc n) (drop (Suc n) molecules) t wn"
    unfolding batch_append bx using n by (simp add: min_def)
  then have rest: "batch E save (Suc n) (drop (Suc n) molecules) t wn = Inr (outdata, w')"
    using run by simp
  have rows: "filter named t = List.map_filter (parsed E) (jobs ?xs)"
    unfolding tx jobs_upt append_Nil by (rule named_rows)
  have nonempty: "?xs \<noteq> []" using len by auto
  have saved: "save \<longrightarrow> csv wn = Some t" using cx nonempty by simp
  show ?thesis
    apply (rule exI [of _ t], rule exI [of _ wn])
    apply (intro conjI)
       apply (simp only: orcanize_many_def bx)
      apply (rule rest)
     apply (rule rows)
    apply (rule saved)
    done
qed

text \<open>
  C3, as amended. For a batch that is not aborted, the rows of the returned table that
  carry a molecule identifier are the dictionaries of the molecules whose report
  parsed, one each and in the order of the batch, and none is of a molecule whose
  report did not parse. After each job whose report parsed the run has reached a table
  \<open>t\<close> and files \<open>wn\<close> (those of the loop run on the jobs so far, from which the rest of
  the loop goes on to the result) such that, with \<open>save\<close>, the file \<open>orkanized.csv\<close> holds
  \<open>t\<close>. A job whose report is an empty file parses, to the dictionary that binds only
  \<open>smiles\<close>; and \<open>done.log\<close> receives the lines of the jobs that parsed, \<open>undone.log\<close>
  those of the others.
\<close>

theorem batch_table:
  assumes "\<forall>smiles\<in>set molecules. rdkit E smiles \<noteq> None \<and> launches E (orca_args smiles)"
  shows "\<exists>outdata w'.
     orcanize_many E molecules save w = Inr (outdata, w') \<and>
     filter named outdata = List.map_filter (parsed E) (jobs molecules) \<and>
     (\<forall>n<length molecules. parses E (n, molecules ! n) \<longrightarrow>
        (\<exists>t wn. orcanize_many E (take (Suc n) molecules) save w = Inr (t, wn) \<and>
                batch E save (Suc n) (drop (Suc n) molecules) t wn = Inr (outdata, w') \<and>
                filter named t = List.map_filter (parsed E) (jobs (take (Suc n) molecules)) \<and>
                (save \<longrightarrow> csv wn = Some t))) \<and>
     (\<forall>job\<in>set (jobs molecules). disk E (out_name (int (fst job))) = Some [] \<longrightarrow>
        parsed E job = Some [''smiles'' \<mapsto> snd job]) \<and>
     files w' (lit ''done.log'') =
       log_after (files w (lit ''done.log'')) (filter (parses E) (jobs molecules)) \<and>
     files w' (lit ''undone.log'') =
       log_after (files w (lit ''undone.log'')) (filter (\<lambda>job. \<not> parses E job) (jobs molecules))"
proof -
  from batch_effect [OF assms, of save 0 "[]" w] obtain outdata w' where
    b: "batch E save 0 molecules [] w = Inr (outdata, w')"
    and t: "outdata = [] @ concat (map (\<lambda>job. DataFrame (parsed E job))
        (zip [0..<0 + length molecules] molecules))"
    and d: "files w' (lit ''done.log'') = log_after (files w (lit ''done.log''))
        (filter (parses E) (zip [0..<0 + length molecules] molecules))"
    and u: "files w' (lit ''undone.log'') = log_after (files w (lit ''undone.log''))
        (filter (\<lambda>job. \<not> parses E job) (zip [0..<0 + length molecules] molecules))"
    by (elim exE conjE) (rule that, assumption+)
  have rows: "filter named outdata = List.map_filter (parsed E) (jobs molecules)"
    unfolding t jobs_upt append_Nil by (rule named_rows)
  have empty: "parsed E job = Some [''smiles'' \<mapsto> snd job]"
    if "disk E (out_name (int (fst job))) = Some []" for job
    using open_readlines_empty [OF that]
    by (simp add: parsed_def orca_reader_def initial_def)
  show ?thesis
    apply (rule exI [of _ outdata], rule exI [of _ w'])
    apply (intro conjI)
         apply (simp only: orcanize_many_def b)
        apply (rule rows)
       apply (intro allI impI)
       apply (rule batch_after_job [OF assms b], assumption)
      apply (simp add: empty)
     apply (simp only: d jobs_upt)
    apply (simp only: u jobs_upt)
    done
qed

lemma orcanize_Inr_general:
  "orcanize E smiles nb w = Inr (r, w') \<longleftrightarrow>
   (\<exists>xyz charge radicals.
      rdkit E smiles = Some (xyz, charge, radicals) \<and> launches E (orca_args smiles) \<and>
      r = (case orca_reader E smiles nb of Inr d \<Rightarrow> Some d | Inl e \<Rightarrow> None) \<and>
      w' = append_file (log_name r) (log_line nb smiles)
             (write_file (inp_name nb) (file_output xyz charge radicals) w
                \<lparr>calls := calls w @ [orca_args smiles]\<rparr>))"
  by (auto simp: orcanize_def orca_generator_def subprocess_run_def ebind_eq_Inr
      log_name_def write_file_def split: option.splits sum.splits)

lemma log_name_cases: "log_name r = lit ''done.log'' \<or> log_name r = lit ''undone.log''"
  by (cases r) (simp_all add: log_name_def)

lemma orca_args_eq:
  "orca_args smiles = [lit ''orca'', smiles @ lit ''.inp'', lit ''>'', smiles @ lit ''.out'']"
  by (simp add: orca_args_def ORCA_EXECUTABLE_def)

text \<open>
  C10. A call of \<open>orcanize\<close> that returns has handed to \<open>subprocess.run\<close> the four
  strings \<open>orca\<close>, \<open>{smiles}.inp\<close>, \<open>>\<close>, \<open>{smiles}.out\<close> as one argument
  vector, the \<open>>\<close> being an argument like the others, and has itself left the file
  \<open>{smiles}.out\<close> as it was.
\<close>

theorem orcanize_argv:
  assumes "orcanize E smiles nb w = Inr (r, w')"
  shows "calls w' = calls w @ [[lit ''orca'', smiles @ lit ''.inp'', lit ''>'', smiles @ lit ''.out'']] \<and>
         files w' (smiles @ lit ''.out'') = files w (smiles @ lit ''.out'')"
proof -
  from assms [unfolded orcanize_Inr_general] obtain xyz charge radicals where
    w': "w' = append_file (log_name r) (log_line nb smiles)
             (write_file (inp_name nb) (file_output xyz charge radicals) w
                \<lparr>calls := calls w @ [orca_args smiles]\<rparr>)"
    by (elim exE conjE) (rule that, assumption+)
  have "calls w' = calls w @ [orca_args smiles]"
    by (simp add: w' append_file_def write_file_def)
  moreover have "smiles @ lit ''.out'' \<noteq> log_name r"
    using log_name_cases [of r] out_not_written(2,3) [of smiles] by auto
  then have "files w' (smiles @ lit ''.out'') = files w (smiles @ lit ''.out'')"
    using out_not_written(1) [of smiles nb]
    by (simp add: w' append_file_def write_file_def)
  ultimately show ?thesis by (simp only: orca_args_eq simp_thms)
qed

lemma last_lits: "last (lit ''orca'') = 97" "last (lit ''>'') = 62" "last (s @ lit ''.inp'') = 112"
  by (simp_all add: lit_def)

lemma reader_depends_on_out:
  "disk (E' :: env) (out_name nb) = disk (E :: env) (out_name nb) \<Longrightarrow>
   orca_reader E' smiles nb = orca_reader E smiles nb"
  by (simp add: orca_reader_def open_readlines_def)

text \<open>
  C5. In a call \<open>orcanize smiles nb\<close> that returns, the builder has written the file
  \<open>{nb}.inp\<close>; what the parser returns depends on the disk through the file
  \<open>{nb}.out\<close> only; the program was called with \<open>{smiles}.inp\<close> and
  \<open>{smiles}.out\<close>. Unless the identifier is the decimal text of the handle, which no
  molecule's is, the file named to the program is not the file the builder wrote and
  the file the parser reads is not named in the call.
\<close>

theorem orcanize_file_stems:
  assumes "orcanize E smiles nb w = Inr (r, w')"
  shows "(\<exists>xyz charge radicals. rdkit E smiles = Some (xyz, charge, radicals) \<and>
            files w' (str_int nb @ lit ''.inp'') = Some (file_output xyz charge radicals)) \<and>
         (\<forall>E' :: env. disk E' (str_int nb @ lit ''.out'') = disk E (str_int nb @ lit ''.out'') \<longrightarrow>
            orca_reader E' smiles nb = orca_reader E smiles nb) \<and>
         r = (case orca_reader E smiles nb of Inr d \<Rightarrow> Some d | Inl e \<Rightarrow> None) \<and>
         last (calls w') = [ORCA_EXECUTABLE, smiles @ lit ''.inp'', lit ''>'', smiles @ lit ''.out''] \<and>
         (smiles \<noteq> str_int nb \<longrightarrow>
            smiles @ lit ''.inp'' \<noteq> str_int nb @ lit ''.inp'' \<and>
            str_int nb @ lit ''.out'' \<notin> set (last (calls w')))"
proof -
  from assms [unfolded orcanize_Inr_general] obtain xyz charge radicals where
    rd: "rdkit E smiles = Some (xyz, charge, radicals)"
    and r: "r = (case orca_reader E smiles nb of Inr d \<Rightarrow> Some d | Inl e \<Rightarrow> None)"
    and w': "w' = append_file (log_name r) (log_line nb smiles)
             (write_file (inp_name nb) (file_output xyz charge radicals) w
                \<lparr>calls := calls w @ [orca_args smiles]\<rparr>)"
    by (elim exE conjE) (rule that, assumption+)
  have "inp_name nb \<noteq> log_name r"
    using log_name_cases [of r] inp_name_not_log [of nb] by auto
  then have "files w' (inp_name nb) = Some (file_output xyz charge radicals)"
    by (simp add: w' append_file_def write_file_def)
  then have written: "\<exists>xyz charge radicals. rdkit E smiles = Some (xyz, charge, radicals) \<and>
      files w' (str_int nb @ lit ''.inp'') = Some (file_output xyz charge radicals)"
    using rd by (simp add: inp_name_def)
  have reads: "\<forall>E' :: env. disk E' (str_int nb @ lit ''.out'') = disk E (str_int nb @ lit ''.out'') \<longrightarrow>
      orca_reader E' smiles nb = orca_reader E smiles nb"
  proof (intro allI impI)
    fix E' :: env
    assume "disk E' (str_int nb @ lit ''.out'') = disk E (str_int nb @ lit ''.out'')"
    then have "disk E' (out_name nb) = disk E (out_name nb)" by (simp only: out_name_def)
    then show "orca_reader E' smiles nb = orca_reader E smiles nb"
      by (rule reader_depends_on_out)
  qed
  have argv: "last (calls w') = [ORCA_EXECUTABLE, smiles @ lit ''.inp'', lit ''>'', smiles @ lit ''.out'']"
    by (simp add: w' append_file_def write_file_def orca_args_def)
  have differ: "smiles @ lit ''.inp'' \<noteq> str_int nb @ lit ''.inp'' \<and>
      str_int nb @ lit ''.out'' \<notin> set (last (calls w'))" if ne: "smiles \<noteq> str_int nb"
  proof -
    have l: "last (str_int nb @ lit ''.out'') = 116" by (rule last_out)
    have "str_int nb @ lit ''.out'' \<noteq> lit ''orca''" using l last_lits(1) by auto
    moreover have "str_int nb @ lit ''.out'' \<noteq> lit ''>''" using l last_lits(2) by auto
    moreover have "str_int nb @ lit ''.out'' \<noteq> smiles @ lit ''.inp''"
      using l last_lits(3) [of smiles] by auto
    moreover have "str_int nb @ lit ''.out'' \<noteq> smiles @ lit ''.out''" using ne by simp
    moreover have "smiles @ lit ''.inp'' \<noteq> str_int nb @ lit ''.inp''" using ne by simp
    ultimately show ?thesis by (simp add: argv ORCA_EXECUTABLE_def)
  qed
  show ?thesis
  proof (intro conjI impI)
    show "\<exists>xyz charge radicals. rdkit E smiles = Some (xyz, charge, radicals) \<and>
      files w' (str_int nb @ lit ''.inp'') = Some (file_output xyz charge radicals)"
      by (rule written)
    show "\<forall>E' :: env. disk E' (str_int nb @ lit ''.out'') = disk E (str_int nb @ lit ''.out'') \<longrightarrow>
      orca_reader E' smiles nb = orca_reader E smiles nb"
      by (rule reads)
    show "r = (case orca_reader E smiles nb of Inr d \<Rightarrow> Some d | Inl e \<Rightarrow> None)" by (rule r)
    show "last (calls w') = [ORCA_EXECUTABLE, smiles @ lit ''.inp'', lit ''>'', smiles @ lit ''.out'']"
      by (rule argv)
    show "smiles @ lit ''.inp'' \<noteq> str_int nb @ lit ''.inp''" if "smiles \<noteq> str_int nb"
      using differ [OF that] by (rule conjunct1)
    show "str_int nb @ lit ''.out'' \<notin> set (last (calls w'))" if "smiles \<noteq> str_int nb"
      using differ [OF that] by (rule conjunct2)
  qed
qed

lemma out_name_4: "out_name 4 = lit ''4.out''"
  by (simp add: out_name_def str_int_def digits_of.simps lit_def)

lemma sample_reader_4: "orca_reader sample_env smiles 4 = Inl FileNotFoundError"
  by (simp add: orca_reader_def open_readlines_def out_name_4 sample_env_def lit_def)

lemma sample_parsed:
  "parsed sample_env (0, smiles) = Some (sample_props smiles)"
  "parsed sample_env (Suc 0, smiles) = Some [''smiles'' \<mapsto> smiles]"
  "parsed sample_env (2, smiles) = Some (sample_props smiles)"
  "parsed sample_env (3, smiles) = Some (orbital_props smiles)"
  "parsed sample_env (4, smiles) = None"
  using sample_reader_0 [of smiles] sample_reader_1 [of smiles] sample_reader_2 [of smiles]
    sample_reader_3 [of smiles] sample_reader_4 [of smiles]
  by (simp_all add: parsed_def)

lemma sample_env_accepts:
  "\<forall>smiles\<in>set molecules. rdkit sample_env smiles \<noteq> None \<and> launches sample_env (orca_args smiles)"
  by (simp add: sample_env_def)

lemma sample_jobs:
  "jobs sample_molecules = [(0, lit ''O''), (Suc 0, lit ''C''), (2, lit ''N'')]"
  "jobs sample_batch =
     [(0, lit ''O''), (Suc 0, lit ''C''), (2, lit ''N''), (3, lit ''CC''), (4, lit ''CO'')]"
  by (simp_all add: jobs_def sample_molecules_def sample_batch_def upt_conv_Cons)

lemma sample_log_lines:
  "log_after None [(0, lit ''O''), (Suc 0, lit ''C''), (2, lit ''N'')] =
     Some (lit ''0 O'' @ [10] @ lit ''1 C'' @ [10] @ lit ''2 N'' @ [10])"
  "log_after None [(0, lit ''O''), (Suc 0, lit ''C''), (2, lit ''N''), (3, lit ''CC'')] =
     Some (lit ''0 O'' @ [10] @ lit ''1 C'' @ [10] @ lit ''2 N'' @ [10] @ lit ''3 CC'' @ [10])"
  "log_after None [(4, lit ''CO'')] = Some (lit ''4 CO'' @ [10])"
  by (simp_all add: log_after_def log_line_def str_int_def digits_of.simps lit_def)

text \<open>
  The sample batch of five: four jobs go to \<open>done.log\<close>, the job without a report to
  \<open>undone.log\<close>.
\<close>

theorem batch_logs_partition_witness:
  "\<exists>outdata w'.
     orcanize_many sample_env sample_batch True empty_world = Inr (outdata, w') \<and>
     files w' (lit ''done.log'') =
       Some (lit ''0 O'' @ [10] @ lit ''1 C'' @ [10] @ lit ''2 N'' @ [10] @ lit ''3 CC'' @ [10]) \<and>
     files w' (lit ''undone.log'') = Some (lit ''4 CO'' @ [10])"
proof -
  from batch_logs_partition [OF sample_env_accepts, of sample_batch True empty_world]
  obtain outdata w' where
    b: "orcanize_many sample_env sample_batch True empty_world = Inr (outdata, w')"
    and d: "files w' (lit ''done.log'') =
       log_after (files empty_world (lit ''done.log'')) (filter (parses sample_env) (jobs sample_batch))"
    and u: "files w' (lit ''undone.log'') =
       log_after (files empty_world (lit ''undone.log''))
         (filter (\<lambda>job. \<not> parses sample_env job) (jobs sample_batch))"
    by (elim exE conjE) (rule that, assumption+)
  have d': "files w' (lit ''done.log'') =
      Some (lit ''0 O'' @ [10] @ lit ''1 C'' @ [10] @ lit ''2 N'' @ [10] @ lit ''3 CC'' @ [10])"
    unfolding d sample_jobs by (simp add: parses_def sample_parsed empty_world_def sample_log_lines)
  have u': "files w' (lit ''undone.log'') = Some (lit ''4 CO'' @ [10])"
    unfolding u sample_jobs by (simp add: parses_def sample_parsed empty_world_def sample_log_lines)
  show ?thesis
    by (rule exI [of _ outdata], rule exI [of _ w']) (intro conjI b d' u')
qed

lemma gap_parsed:
  "parsed gap_env (0, smiles) = Some (sample_props smiles)"
  "parsed gap_env (Suc 0, smiles) = Some [''smiles'' \<mapsto> smiles]"
  "parsed gap_env (2, smiles) = None"
  "parsed gap_env (3, smiles) = Some (orbital_props smiles)"
proof -
  have "disk gap_env (out_name 0) = disk sample_env (out_name 0)"
    "disk gap_env (out_name 1) = disk sample_env (out_name 1)"
    "disk gap_env (out_name 3) = disk sample_env (out_name 3)"
    by (simp_all add: gap_env_def out_name_0 out_name_1 out_name_3 lit_def)
  then have "orca_reader gap_env smiles 0 = orca_reader sample_env smiles 0"
    "orca_reader gap_env smiles 1 = orca_reader sample_env smiles 1"
    "orca_reader gap_env smiles 3 = orca_reader sample_env smiles 3"
    by (simp_all add: orca_reader_def open_readlines_def)
  then show "parsed gap_env (0, smiles) = Some (sample_props smiles)"
    "parsed gap_env (Suc 0, smiles) = Some [''smiles'' \<mapsto> smiles]"
    "parsed gap_env (3, smiles) = Some (orbital_props smiles)"
    using sample_reader_0 [of smiles] sample_reader_1 [of smiles] sample_reader_3 [of smiles]
    by (simp_all add: parsed_def)
  have "disk gap_env (out_name 2) = None"
    by (simp add: gap_env_def out_name_2)
  then show "parsed gap_env (2, smiles) = None"
    by (simp add: parsed_def orca_reader_def open_readlines_def)
qed

lemma gap_env_accepts:
  "\<forall>smiles\<in>set molecules. rdkit gap_env smiles \<noteq> None \<and> launches gap_env (orca_args smiles)"
  by (simp add: gap_env_def sample_env_def)

lemma gap_jobs:
  "jobs gap_batch = [(0, lit ''O''), (Suc 0, lit ''C''), (2, lit ''N''), (3, lit ''CC'')]"
  by (simp add: jobs_def gap_batch_def upt_conv_Cons)

lemma gap_log_lines:
  "log_after None [(0, lit ''O''), (Suc 0, lit ''C''), (3, lit ''CC'')] =
     Some (lit ''0 O'' @ [10] @ lit ''1 C'' @ [10] @ lit ''3 CC'' @ [10])"
  "log_after None [(2, lit ''N'')] = Some (lit ''2 N'' @ [10])"
  by (simp_all add: log_after_def log_line_def str_int_def digits_of.simps lit_def)

text \<open>
  Four jobs: the report of the second is an empty file and the third has none. The rows
  with an identifier are those of the first, second and fourth job; the fourth parsed,
  so the file \<open>orkanized.csv\<close> holds the table; the line \<open>1 C\<close> is in \<open>done.log\<close> and
  \<open>2 N\<close> in \<open>undone.log\<close>.
\<close>

theorem batch_table_witness:
  "disk gap_env (lit ''1.out'') = Some [] \<and> disk gap_env (lit ''2.out'') = None \<and>
   (\<exists>outdata w'.
     orcanize_many gap_env gap_batch True empty_world = Inr (outdata, w') \<and>
     filter named outdata =
       [sample_props (lit ''O''), [''smiles'' \<mapsto> lit ''C''], orbital_props (lit ''CC'')] \<and>
     csv w' = Some outdata \<and>
     files w' (lit ''done.log'') = Some (lit ''0 O'' @ [10] @ lit ''1 C'' @ [10] @ lit ''3 CC'' @ [10]) \<and>
     files w' (lit ''undone.log'') = Some (lit ''2 N'' @ [10]))"
proof -
  from batch_table [OF gap_env_accepts, of gap_batch True empty_world]
  obtain outdata w' where
    b: "orcanize_many gap_env gap_batch True empty_world = Inr (outdata, w')"
    and t: "filter named outdata = List.map_filter (parsed gap_env) (jobs gap_batch)"
    and s: "\<forall>n<length gap_batch. parses gap_env (n, gap_batch ! n) \<longrightarrow>
        (\<exists>t wn. orcanize_many gap_env (take (Suc n) gap_batch) True empty_world = Inr (t, wn) \<and>
                batch gap_env True (Suc n) (drop (Suc n) gap_batch) t wn = Inr (outdata, w') \<and>
                filter named t = List.map_filter (parsed gap_env) (jobs (take (Suc n) gap_batch)) \<and>
                (True \<longrightarrow> csv wn = Some t))"
    and d: "files w' (lit ''done.log'') =
       log_after (files empty_world (lit ''done.log'')) (filter (parses gap_env) (jobs gap_batch))"
    and u: "files w' (lit ''undone.log'') =
       log_after (files empty_world (lit ''undone.log''))
         (filter (\<lambda>job. \<not> parses gap_env job) (jobs gap_batch))"
    by (elim exE conjE) (rule that, assumption+)
  have t': "filter named outdata =
      [sample_props (lit ''O''), [''smiles'' \<mapsto> lit ''C''], orbital_props (lit ''CC'')]"
    unfolding t gap_jobs by (simp add: List.map_filter_simps gap_parsed)
  have last: "3 < length gap_batch" "gap_batch ! 3 = lit ''CC''" "take (Suc 3) gap_batch = gap_batch"
    by (simp_all add: gap_batch_def)
  have "parses gap_env (3, gap_batch ! 3)" by (simp add: parses_def gap_parsed last(2))
  with s last(1) obtain t wn where
    "orcanize_many gap_env (take (Suc 3) gap_batch) True empty_world = Inr (t, wn)"
    "csv wn = Some t" by blast
  then have c': "csv w' = Some outdata" unfolding last(3) b by simp
  have d': "files w' (lit ''done.log'') = Some (lit ''0 O'' @ [10] @ lit ''1 C'' @ [10] @ lit ''3 CC'' @ [10])"
    unfolding d gap_jobs by (simp add: parses_def gap_parsed empty_world_def gap_log_lines)
  have u': "files w' (lit ''undone.log'') = Some (lit ''2 N'' @ [10])"
    unfolding u gap_jobs by (simp add: parses_def gap_parsed empty_world_def gap_log_lines)
  have disk: "disk gap_env (lit ''1.out'') = Some []" "disk gap_env (lit ''2.out'') = None"
    by (simp_all add: gap_env_def sample_env_def lit_def)
  have "\<exists>outdata w'.
     orcanize_many gap_env gap_batch True empty_world = Inr (outdata, w') \<and>
     filter named outdata =
       [sample_props (lit ''O''), [''smiles'' \<mapsto> lit ''C''], orbital_props (lit ''CC'')] \<and>
     csv w' = Some outdata \<and>
     files w' (lit ''done.log'') = Some (lit ''0 O'' @ [10] @ lit ''1 C'' @ [10] @ lit ''3 CC'' @ [10]) \<and>
     files w' (lit ''undone.log'') = Some (lit ''2 N'' @ [10])"
    by (rule exI [of _ outdata], rule exI [of _ w']) (intro conjI b t' c' d' u')
  with disk show ?thesis by (intro conjI)
qed

text \<open>
  C3 as stated fails: in the batch of three whose second report is an empty file the
  table has a row for the second molecule, \<open>1 C\<close> is appended to \<open>done.log\<close>, and
  \<open>undone.log\<close> is not written.
\<close>

theorem batch_empty_report:
  "disk sample_env (lit ''1.out'') = Some [] \<and>
   (case orcanize_many sample_env sample_molecules True empty_world of
      Inl e \<Rightarrow> False
    | Inr (outdata, w') \<Rightarrow>
        outdata = [sample_props (lit ''O''), [''smiles'' \<mapsto> lit ''C''], sample_props (lit ''N'')] \<and>
        files w' (lit ''done.log'') = Some (lit ''0 O'' @ [10] @ lit ''1 C'' @ [10] @ lit ''2 N'' @ [10]) \<and>
        files w' (lit ''undone.log'') = None)"
proof -
  from batch_effect [OF sample_env_accepts, where molecules = sample_molecules and save = True
      and nb = 0 and outdata = "[]" and w = empty_world]
  obtain outdata w' where
    b: "batch sample_env True 0 sample_molecules [] empty_world = Inr (outdata, w')"
    and t: "outdata = [] @ concat (map (\<lambda>job. DataFrame (parsed sample_env job))
        (zip [0..<0 + length sample_molecules] sample_molecules))"
    and d: "files w' (lit ''done.log'') = log_after (files empty_world (lit ''done.log''))
        (filter (parses sample_env) (zip [0..<0 + length sample_molecules] sample_molecules))"
    and u: "files w' (lit ''undone.log'') = log_after (files empty_world (lit ''undone.log''))
        (filter (\<lambda>job. \<not> parses sample_env job) (zip [0..<0 + length sample_molecules] sample_molecules))"
    by (elim exE conjE) (rule that, assumption+)
  have t': "outdata = [sample_props (lit ''O''), [''smiles'' \<mapsto> lit ''C''], sample_props (lit ''N'')]"
    unfolding t jobs_upt sample_jobs by (simp add: DataFrame_def sample_parsed)
  have d': "files w' (lit ''done.log'') = Some (lit ''0 O'' @ [10] @ lit ''1 C'' @ [10] @ lit ''2 N'' @ [10])"
    unfolding d jobs_upt sample_jobs
    by (simp add: parses_def sample_parsed empty_world_def sample_log_lines)
  have u': "files w' (lit ''undone.log'') = None"
    unfolding u jobs_upt sample_jobs
    by (simp add: parses_def sample_parsed empty_world_def)
  have "disk sample_env (lit ''1.out'') = Some []"
    by (simp add: sample_env_def lit_def)
  then show ?thesis
    by (simp add: orcanize_many_def b t' d' u')
qed

lemma sample_orcanize:
  "\<exists>w'. orcanize sample_env (lit ''O'') 0 empty_world = Inr (Some (sample_props (lit ''O'')), w')"
  using orcanize_returns [of sample_env "lit ''O''" 0 empty_world] sample_parsed(1) [of "lit ''O''"]
  by (simp add: sample_env_def)

text \<open>
  The first job of the sample environment.
\<close>

theorem orcanize_argv_witness:
  "\<exists>w'. orcanize sample_env (lit ''O'') 0 empty_world = Inr (Some (sample_props (lit ''O'')), w') \<and>
     calls w' = [[lit ''orca'', lit ''O.inp'', lit ''>'', lit ''O.out'']] \<and>
     files w' (lit ''O.out'') = None"
proof -
  from sample_orcanize obtain w' where
    o: "orcanize sample_env (lit ''O'') 0 empty_world = Inr (Some (sample_props (lit ''O'')), w')"
    by blast
  have "calls w' = [[lit ''orca'', lit ''O.inp'', lit ''>'', lit ''O.out'']]"
    and "files w' (lit ''O.out'') = None"
    using orcanize_argv [OF o] by (simp_all add: empty_world_def lit_def)
  with o show ?thesis by blast
qed

text \<open>
  The first job of the sample environment: \<open>0.inp\<close> is written, \<open>O.inp\<close> is named.
\<close>

theorem orcanize_file_stems_witness:
  "\<exists>w'. orcanize sample_env (lit ''O'') 0 empty_world = Inr (Some (sample_props (lit ''O'')), w') \<and>
     files w' (lit ''0.inp'') = Some (file_output [] 0 0) \<and>
     last (calls w') = [lit ''orca'', lit ''O.inp'', lit ''>'', lit ''O.out''] \<and>
     lit ''O.inp'' \<noteq> lit ''0.inp'' \<and>
     lit ''0.out'' \<notin> set (last (calls w'))"
proof -
  from sample_orcanize obtain w' where
    o: "orcanize sample_env (lit ''O'') 0 empty_world = Inr (Some (sample_props (lit ''O'')), w')"
    by blast
  have s0: "str_int 0 = lit ''0''" by (simp add: str_int_def digits_of.simps lit_def)
  have ne: "lit ''O'' \<noteq> str_int 0" by (simp add: s0 lit_def)
  note th = orcanize_file_stems [OF o]
  from th obtain xyz charge radicals where
    rd: "rdkit sample_env (lit ''O'') = Some (xyz, charge, radicals)"
    and f: "files w' (str_int 0 @ lit ''.inp'') = Some (file_output xyz charge radicals)"
    by (elim exE conjE) (rule that, assumption+)
  have "xyz = [] \<and> charge = 0 \<and> radicals = 0" using rd by (simp add: sample_env_def)
  then have "files w' (lit ''0.inp'') = Some (file_output [] 0 0)"
    using f by (simp add: s0 lit_def)
  moreover have "last (calls w') = [lit ''orca'', lit ''O.inp'', lit ''>'', lit ''O.out'']"
    using th by (simp add: ORCA_EXECUTABLE_def lit_def)
  moreover have "lit ''O.inp'' \<noteq> lit ''0.inp''" "lit ''0.out'' \<notin> set (last (calls w'))"
    using th ne by (simp_all add: s0 lit_def ORCA_EXECUTABLE_def)
  ultimately show ?thesis using o by blast
qed

section \<open>The encoding of the search phrases\<close>

lemma utf16_units_Inr_scalar: "utf16_units p = Inr us \<Longrightarrow> list_all scalar p"
proof (induction p arbitrary: us)
  case Nil
  show ?case by simp
next
  case (Cons c p)
  from Cons.prems have c: "\<not> (is_surrogate c \<or> 1114111 < c)"
    by (simp split: if_splits)
  with Cons.prems obtain us' where "utf16_units p = Inr us'"
    by (auto simp: ebind_eq_Inr)
  from Cons.IH [OF this] c show ?case by (simp add: scalar_def)
qed

lemma round_trip_scalar: "list_all scalar p \<Longrightarrow> round_trip p = Inr p"
  unfolding round_trip_def by (rule utf16_round_trip_scalar)

lemma round_trip_Inr: "round_trip p = Inr q \<Longrightarrow> list_all scalar p \<and> q = p"
proof -
  assume a: "round_trip p = Inr q"
  then obtain bs where "utf16_encode p = Inr bs"
    by (auto simp: round_trip_def ebind_eq_Inr)
  then obtain us where "utf16_units p = Inr us"
    by (auto simp: utf16_encode_def ebind_eq_Inr)
  then have s: "list_all scalar p" by (rule utf16_units_Inr_scalar)
  with a round_trip_scalar [OF s] show ?thesis by simp
qed

lemma has_round_trip: "has phrase line = ebind (round_trip (lit phrase)) (\<lambda>p. Inr (py_in p line))"
  by (cases "utf16_encode (lit phrase)") (simp_all add: has_def round_trip_def del: has_eq)

lemma token_rule_direct_eq: "token_rule phrase i key st line = token_rule_direct phrase i key st line"
  by (simp add: token_rule_def token_rule_direct_def)

lemma rotational_rule_direct_eq: "rotational_rule st line = rotational_rule_direct st line"
  by (simp add: rotational_rule_def rotational_rule_direct_def)

lemma dipole_rules_direct_eq: "dipole_rules st line = dipole_rules_direct st line"
  by (simp add: dipole_rules_def dipole_rules_direct_def)

lemma thermo_rules_direct_eq: "thermo_rules st line = thermo_rules_direct st line"
  by (simp add: thermo_rules_def thermo_rules_direct_def token_rule_direct_eq
      rotational_rule_direct_eq)

lemma loop_body_direct_eq: "loop_body st line = loop_body_direct st line"
  by (simp add: loop_body_def loop_body_direct_def dipole_rules_direct_eq thermo_rules_direct_eq)

lemma scan_direct_eq: "scan st out = scan_direct st out"
  by (induction out arbitrary: st) (simp_all add: loop_body_direct_eq)

text \<open>
  C8. The round trip through utf-16 never yields a string other than the one it was
  given, and yields it for every string of Unicode scalar values (a lone surrogate
  cannot be encoded: there the round trip raises and has no value), so for every
  literal phrase of the parser; a guard with the round trip is the guard without it;
  and \<open>orca_reader\<close> returns what the parser with the phrases matched directly
  returns, for every environment, identifier and handle.
\<close>

theorem round_trip_no_op:
  "(\<forall>q. round_trip p = Inr q \<longrightarrow> q = p) \<and>
   (list_all scalar p \<longrightarrow> round_trip p = Inr p) \<and>
   round_trip (lit phrase) = Inr (lit phrase) \<and>
   has phrase line = Inr (py_in (lit phrase) line) \<and>
   orca_reader E smiles nb = orca_reader_direct E smiles nb"
proof (intro conjI allI impI)
  fix q
  assume "round_trip p = Inr q"
  then show "q = p" using round_trip_Inr by blast
next
  assume "list_all scalar p"
  then show "round_trip p = Inr p" by (rule round_trip_scalar)
next
  show "round_trip (lit phrase) = Inr (lit phrase)"
    by (rule round_trip_scalar [OF scalar_lit])
next
  show "has phrase line = Inr (py_in (lit phrase) line)"
    by (simp add: has_round_trip round_trip_scalar [OF scalar_lit])
next
  show "orca_reader E smiles nb = orca_reader_direct E smiles nb"
    by (simp add: orca_reader_def orca_reader_direct_def scan_direct_eq)
qed

text \<open>
  A phrase of the parser, a string with a character outside the basic plane, and the
  first job of the sample environment.
\<close>

theorem round_trip_no_op_witness:
  "round_trip (lit ''E(Eh)'') = Inr (lit ''E(Eh)'') \<and>
   list_all scalar [119, 97, 116, 101, 114, 8364, 128512] \<and>
   round_trip [119, 97, 116, 101, 114, 8364, 128512] = Inr [119, 97, 116, 101, 114, 8364, 128512] \<and>
   round_trip [55296] = Inl UnicodeEncodeError \<and>
   orca_reader_direct sample_env (lit ''O'') 0 = Inr (sample_props (lit ''O''))"
proof -
  have s: "list_all scalar [119, 97, 116, 101, 114, 8364, 128512]"
    by (simp add: scalar_def is_surrogate_def)
  note th = round_trip_no_op [of "[119, 97, 116, 101, 114, 8364, 128512]" "''E(Eh)''" "[]"
      sample_env "lit ''O''" 0]
  have "round_trip (lit ''E(Eh)'') = Inr (lit ''E(Eh)'')" using th by blast
  moreover have "round_trip [119, 97, 116, 101, 114, 8364, 128512] =
      Inr [119, 97, 116, 101, 114, 8364, 128512]"
    using th s by blast
  moreover have "round_trip [55296] = Inl UnicodeEncodeError"
    by (simp add: round_trip_def utf16_encode_def is_surrogate_def)
  moreover have "orca_reader_direct sample_env (lit ''O'') 0 = Inr (sample_props (lit ''O''))"
    using th sample_reader_0 [of "lit ''O''"] by simp
  ultimately show ?thesis using s by blast
qed

section \<open>The rules of the three sections\<close>

lemma scan_append: "scan st (xs @ ys) = ebind (scan st xs) (\<lambda>s. scan s ys)"
proof (induction xs arbitrary: st)
  case Nil
  show ?case by simp
next
  case (Cons x xs)
  show ?case by (cases "loop_body st x") (simp_all add: Cons.IH)
qed

lemma scan_append_Inr:
  "scan st (xs @ ys) = Inr st' \<longleftrightarrow> (\<exists>s. scan st xs = Inr s \<and> scan s ys = Inr st')"
  by (simp add: scan_append ebind_eq_Inr)

lemma dipole_rules_registers:
  "dipole_rules st line = Inr st' \<Longrightarrow>
   orbitals_start st' = orbitals_start st \<and> homo_Eh st' = homo_Eh st \<and> homo_eV st' = homo_eV st"
  by (auto simp: dipole_rules_def Let_def ebind_eq_Inr split: if_splits)

lemma token_rule_registers:
  "token_rule phrase i key st line = Inr st' \<Longrightarrow>
   orbitals_start st' = orbitals_start st \<and> homo_Eh st' = homo_Eh st \<and> homo_eV st' = homo_eV st \<and>
   parse st' = parse st"
  by (auto simp: token_rule_def ebind_eq_Inr split: if_splits)

lemma rotational_rule_registers:
  "rotational_rule st line = Inr st' \<Longrightarrow>
   orbitals_start st' = orbitals_start st \<and> homo_Eh st' = homo_Eh st \<and> homo_eV st' = homo_eV st \<and>
   parse st' = parse st"
  by (auto simp: rotational_rule_def split: if_splits list.splits)

lemma thermo_rules_registers:
  assumes "thermo_rules st line = Inr st'"
  shows "orbitals_start st' = orbitals_start st \<and> homo_Eh st' = homo_Eh st \<and> homo_eV st' = homo_eV st \<and>
    (parse st' \<longleftrightarrow> parse st \<or> py_in (lit ''INNER ENERGY'') line)"
  using assms
proof (rule thermo_rules_steps)
  fix s1 s2 s3 s4 s5
  assume s1: "s1 = (if py_in (lit ''INNER ENERGY'') line then st\<lparr>parse := True\<rparr> else st)"
    and s2: "token_rule ''Total thermal energy'' 3 ''U'' s1 line = Inr s2"
    and s3: "token_rule ''Total Enthalpy'' 3 ''H'' s2 line = Inr s3"
    and s4: "token_rule ''Final entropy term'' 4 ''S'' s3 line = Inr s4"
    and s5: "token_rule ''Final Gibbs'' 5 ''G'' s4 line = Inr s5"
    and s6: "rotational_rule s5 line = Inr st'"
  have "orbitals_start s1 = orbitals_start st \<and> homo_Eh s1 = homo_Eh st \<and> homo_eV s1 = homo_eV st \<and>
    (parse s1 \<longleftrightarrow> parse st \<or> py_in (lit ''INNER ENERGY'') line)"
    by (simp add: s1)
  then show ?thesis
    using token_rule_registers [OF s2] token_rule_registers [OF s3]
      token_rule_registers [OF s4] token_rule_registers [OF s5]
      rotational_rule_registers [OF s6]
    by simp
qed

lemma dipole_rules_parse:
  "dipole_rules st line = Inr st' \<Longrightarrow>
   (parse st' \<longleftrightarrow> (parse st \<or> py_in (lit ''DIPOLE MOMENT'') line) \<and>
      \<not> py_in (lit ''Isotropic polarizability'') line)"
  by (auto simp: dipole_rules_def Let_def ebind_eq_Inr split: if_splits)

lemma dipole_rules_fire:
  assumes "dipole_rules st line = Inr st'" "parse st \<or> py_in (lit ''DIPOLE MOMENT'') line"
  shows "py_in (lit ''Magnitude (Debye)'') line \<Longrightarrow>
      3 < length (split line) \<and> props st' ''Dipole Moment'' = Some (split line ! 3)"
    and "py_in (lit ''Isotropic polarizability'') line \<Longrightarrow>
      3 < length (split line) \<and> props st' ''polarizability'' = Some (split line ! 3)"
  using assms
  by (auto simp: dipole_rules_def Let_def ebind_eq_Inr item_def split: if_splits)

lemma token_rule_fire:
  "token_rule phrase i key st line = Inr st' \<Longrightarrow> parse st \<Longrightarrow> py_in (lit phrase) line \<Longrightarrow>
   i < length (split line) \<and> props st' key = Some (split line ! i)"
  by (auto simp: token_rule_def ebind_eq_Inr item_def split: if_splits)

lemma rotational_rule_fire:
  "rotational_rule st line = Inr st' \<Longrightarrow> parse st \<Longrightarrow>
   py_in (lit ''Rotational constants in cm-1:'') line \<Longrightarrow>
   6 < length (split line) \<and> props st' ''A'' = Some (split line ! 4) \<and>
   props st' ''B'' = Some (split line ! 5) \<and> props st' ''C'' = Some (split line ! 6)"
proof -
  assume a: "rotational_rule st line = Inr st'" "parse st"
    "py_in (lit ''Rotational constants in cm-1:'') line"
  then obtain a' b' c' where t: "take 3 (drop 4 (split line)) = [a', b', c']"
    and st': "st' = st\<lparr>props := (props st)(''A'' \<mapsto> a', ''B'' \<mapsto> b', ''C'' \<mapsto> c')\<rparr>"
    by (auto simp: rotational_rule_def split: list.splits)
  have "length (take 3 (drop 4 (split line))) = 3" unfolding t by simp
  then have len: "6 < length (split line)" by simp
  have "a' = split line ! 4" "b' = split line ! 5" "c' = split line ! 6"
    using t len nth_take [of 0 3 "drop 4 (split line)"] nth_take [of 1 3 "drop 4 (split line)"]
      nth_take [of 2 3 "drop 4 (split line)"]
    by simp_all
  with len st' show ?thesis by simp
qed

lemma thermo_rules_fire:
  assumes t: "thermo_rules st line = Inr st'"
    and opened: "parse st \<or> py_in (lit ''INNER ENERGY'') line"
  shows "parse st'"
    and "py_in (lit ''Total thermal energy'') line \<Longrightarrow> props st' ''U'' = Some (split line ! 3)"
    and "py_in (lit ''Total Enthalpy'') line \<Longrightarrow> props st' ''H'' = Some (split line ! 3)"
    and "py_in (lit ''Final entropy term'') line \<Longrightarrow> props st' ''S'' = Some (split line ! 4)"
    and "py_in (lit ''Final Gibbs'') line \<Longrightarrow> props st' ''G'' = Some (split line ! 5)"
    and "py_in (lit ''Rotational constants in cm-1:'') line \<Longrightarrow>
      props st' ''A'' = Some (split line ! 4) \<and> props st' ''B'' = Some (split line ! 5) \<and>
      props st' ''C'' = Some (split line ! 6)"
proof -
  from t obtain s1 s2 s3 s4 s5 where
    s1: "s1 = (if py_in (lit ''INNER ENERGY'') line then st\<lparr>parse := True\<rparr> else st)"
    and s2: "token_rule ''Total thermal energy'' 3 ''U'' s1 line = Inr s2"
    and s3: "token_rule ''Total Enthalpy'' 3 ''H'' s2 line = Inr s3"
    and s4: "token_rule ''Final entropy term'' 4 ''S'' s3 line = Inr s4"
    and s5: "token_rule ''Final Gibbs'' 5 ''G'' s4 line = Inr s5"
    and s6: "rotational_rule s5 line = Inr st'"
    by (rule thermo_rules_steps)
  have p1: "parse s1" using opened by (auto simp: s1)
  have p2: "parse s2" using token_rule_registers [OF s2] p1 by simp
  have p3: "parse s3" using token_rule_registers [OF s3] p2 by simp
  have p4: "parse s4" using token_rule_registers [OF s4] p3 by simp
  have p5: "parse s5" using token_rule_registers [OF s5] p4 by simp
  show "parse st'" using rotational_rule_registers [OF s6] p5 by simp
  show "props st' ''U'' = Some (split line ! 3)" if "py_in (lit ''Total thermal energy'') line"
  proof -
    have "props s2 ''U'' = Some (split line ! 3)" using token_rule_fire [OF s2 p1 that] by simp
    moreover have "props s3 ''U'' = props s2 ''U''" by (rule token_rule_frame [OF s3]) simp
    moreover have "props s4 ''U'' = props s3 ''U''" by (rule token_rule_frame [OF s4]) simp
    moreover have "props s5 ''U'' = props s4 ''U''" by (rule token_rule_frame [OF s5]) simp
    moreover have "props st' ''U'' = props s5 ''U''" by (rule rotational_rule_frame [OF s6]) simp
    ultimately show ?thesis by simp
  qed
  show "props st' ''H'' = Some (split line ! 3)" if "py_in (lit ''Total Enthalpy'') line"
  proof -
    have "props s3 ''H'' = Some (split line ! 3)" using token_rule_fire [OF s3 p2 that] by simp
    moreover have "props s4 ''H'' = props s3 ''H''" by (rule token_rule_frame [OF s4]) simp
    moreover have "props s5 ''H'' = props s4 ''H''" by (rule token_rule_frame [OF s5]) simp
    moreover have "props st' ''H'' = props s5 ''H''" by (rule rotational_rule_frame [OF s6]) simp
    ultimately show ?thesis by simp
  qed
  show "props st' ''S'' = Some (split line ! 4)" if "py_in (lit ''Final entropy term'') line"
  proof -
    have "props s4 ''S'' = Some (split line ! 4)" using token_rule_fire [OF s4 p3 that] by simp
    moreover have "props s5 ''S'' = props s4 ''S''" by (rule token_rule_frame [OF s5]) simp
    moreover have "props st' ''S'' = props s5 ''S''" by (rule rotational_rule_frame [OF s6]) simp
    ultimately show ?thesis by simp
  qed
  show "props st' ''G'' = Some (split line ! 5)" if "py_in (lit ''Final Gibbs'') line"
  proof -
    have "props s5 ''G'' = Some (split line ! 5)" using token_rule_fire [OF s5 p4 that] by simp
    moreover have "props st' ''G'' = props s5 ''G''" by (rule rotational_rule_frame [OF s6]) simp
    ultimately show ?thesis by simp
  qed
  show "props st' ''A'' = Some (split line ! 4) \<and> props st' ''B'' = Some (split line ! 5) \<and>
      props st' ''C'' = Some (split line ! 6)"
    if "py_in (lit ''Rotational constants in cm-1:'') line"
    using rotational_rule_fire [OF s6 p5 that] by simp
qed

lemma loop_body_rules:
  assumes "loop_body st line = Inr st'"
    and "\<not> (parse st \<and> orbitals_start st)"
    and "\<not> py_in (lit ''ORBITAL ENERGIES'') line" "\<not> py_in (lit ''E(Eh)'') line"
  obtains s2 where "dipole_rules st line = Inr s2" "thermo_rules s2 line = Inr st'"
  using assms(1)
proof (cases rule: loop_body_cases)
  case header
  then show ?thesis using assms(3) by simp
next
  case columns
  then show ?thesis using assms(4) by simp
next
  case (rules s1 s2)
  have "s1 = st" using rules(3) orbital_row_idle [OF assms(2), of line] by simp
  then show ?thesis using that rules(4,5) by simp
qed

lemma value_phrases_member:
  "(''Dipole Moment'', ''Magnitude (Debye)'') \<in> set value_phrases"
  "(''polarizability'', ''Isotropic polarizability'') \<in> set value_phrases"
  "(''U'', ''Total thermal energy'') \<in> set value_phrases"
  "(''H'', ''Total Enthalpy'') \<in> set value_phrases"
  "(''S'', ''Final entropy term'') \<in> set value_phrases"
  "(''G'', ''Final Gibbs'') \<in> set value_phrases"
  "(''A'', ''Rotational constants in cm-1:'') \<in> set value_phrases"
  "(''B'', ''Rotational constants in cm-1:'') \<in> set value_phrases"
  "(''C'', ''Rotational constants in cm-1:'') \<in> set value_phrases"
  "(''HOMO (Eh)'', ''E(Eh)'') \<in> set value_phrases"
  "(''HOMO (eV)'', ''E(Eh)'') \<in> set value_phrases"
  "(''LUMO (Eh)'', ''E(Eh)'') \<in> set value_phrases"
  "(''LUMO (eV)'', ''E(Eh)'') \<in> set value_phrases"
  by (simp_all add: value_phrases_def)

lemma not_columns:
  "''Magnitude (Debye)'' \<noteq> ''E(Eh)''" "''Isotropic polarizability'' \<noteq> ''E(Eh)''"
  "''Total thermal energy'' \<noteq> ''E(Eh)''" "''Total Enthalpy'' \<noteq> ''E(Eh)''"
  "''Final entropy term'' \<noteq> ''E(Eh)''" "''Final Gibbs'' \<noteq> ''E(Eh)''"
  "''Rotational constants in cm-1:'' \<noteq> ''E(Eh)''"
  by simp_all

text \<open>The reader's result in terms of the scan of a report cut at one line.\<close>

lemma reader_cut:
  assumes read: "open_readlines E (out_name nb) = Inr (pre @ line # post)"
    and ret: "orca_reader E smiles nb = Inr m"
    and pre: "scan (initial smiles) pre = Inr st"
  obtains st' stf where "loop_body st line = Inr st'" "scan st' post = Inr stf" "m = props stf"
proof -
  from ret read obtain stf where
    sc: "scan (initial smiles) (pre @ line # post) = Inr stf" and m: "m = props stf"
    unfolding orca_reader_Inr by auto
  from sc pre obtain st' where "loop_body st line = Inr st'" "scan st' post = Inr stf"
    unfolding scan_append_Inr scan_Cons_Inr by auto
  with m show ?thesis by (rule that [rotated 2])
qed

lemma kept_after:
  assumes "scan st' post = Inr stf"
    and "(k, ph) \<in> set value_phrases" "ph \<noteq> ''E(Eh)''"
    and "\<forall>l\<in>set post. \<not> py_in (lit ph) l"
  shows "props stf k = props st' k"
  by (rule scan_absent [OF assms(1,2,4)]) (simp add: assms(3))

text \<open>
  C6. Let \<open>orca_reader\<close> return \<open>m\<close> for a report, and let a line of the report be
  reached with the flag \<open>parse\<close> set, or itself hold \<open>DIPOLE MOMENT\<close>, while no orbital
  table is being read and the line is not an orbital header. If the line holds
  \<open>Magnitude (Debye)\<close> and no later line does, \<open>m\<close> binds \<open>Dipole Moment\<close> to token 3
  of the line; if it holds \<open>Isotropic polarizability\<close> and no later line does, \<open>m\<close>
  binds \<open>polarizability\<close> to token 3 of the line. After the line the flag is set
  unless the line holds \<open>Isotropic polarizability\<close>, which clears it (a line that also
  holds \<open>INNER ENERGY\<close> sets it again).
\<close>

theorem dipole_section:
  assumes read: "open_readlines E (out_name nb) = Inr (pre @ line # post)"
    and ret: "orca_reader E smiles nb = Inr m"
    and pre: "scan (initial smiles) pre = Inr st"
    and opened: "parse st \<or> py_in (lit ''DIPOLE MOMENT'') line"
    and idle: "\<not> (parse st \<and> orbitals_start st)"
    and plain: "\<not> py_in (lit ''ORBITAL ENERGIES'') line" "\<not> py_in (lit ''E(Eh)'') line"
  shows "(py_in (lit ''Magnitude (Debye)'') line \<and>
            (\<forall>l\<in>set post. \<not> py_in (lit ''Magnitude (Debye)'') l) \<longrightarrow>
          m ''Dipole Moment'' = Some (split line ! 3)) \<and>
         (py_in (lit ''Isotropic polarizability'') line \<and>
            (\<forall>l\<in>set post. \<not> py_in (lit ''Isotropic polarizability'') l) \<longrightarrow>
          m ''polarizability'' = Some (split line ! 3)) \<and>
         (\<exists>st'. scan (initial smiles) (pre @ [line]) = Inr st' \<and>
            (parse st' \<longleftrightarrow>
               \<not> py_in (lit ''Isotropic polarizability'') line \<or> py_in (lit ''INNER ENERGY'') line))"
proof -
  from read ret pre obtain st' stf where
    body: "loop_body st line = Inr st'" and post: "scan st' post = Inr stf" and m: "m = props stf"
    by (rule reader_cut)
  from body idle plain obtain s2 where
    d: "dipole_rules st line = Inr s2" and t: "thermo_rules s2 line = Inr st'"
    by (rule loop_body_rules)
  have moment: "m ''Dipole Moment'' = Some (split line ! 3)"
    if "py_in (lit ''Magnitude (Debye)'') line"
      "\<forall>l\<in>set post. \<not> py_in (lit ''Magnitude (Debye)'') l"
  proof -
    have "props s2 ''Dipole Moment'' = Some (split line ! 3)"
      using dipole_rules_fire(1) [OF d opened that(1)] by simp
    moreover have "props st' ''Dipole Moment'' = props s2 ''Dipole Moment''"
      by (rule thermo_rules_frame [OF t]) simp
    moreover have "props stf ''Dipole Moment'' = props st' ''Dipole Moment''"
      by (rule kept_after [OF post value_phrases_member(1) not_columns(1) that(2)])
    ultimately show ?thesis by (simp add: m)
  qed
  have polar: "m ''polarizability'' = Some (split line ! 3)"
    if "py_in (lit ''Isotropic polarizability'') line"
      "\<forall>l\<in>set post. \<not> py_in (lit ''Isotropic polarizability'') l"
  proof -
    have "props s2 ''polarizability'' = Some (split line ! 3)"
      using dipole_rules_fire(2) [OF d opened that(1)] by simp
    moreover have "props st' ''polarizability'' = props s2 ''polarizability''"
      by (rule thermo_rules_frame [OF t]) simp
    moreover have "props stf ''polarizability'' = props st' ''polarizability''"
      by (rule kept_after [OF post value_phrases_member(2) not_columns(2) that(2)])
    ultimately show ?thesis by (simp add: m)
  qed
  have "parse s2 \<longleftrightarrow> \<not> py_in (lit ''Isotropic polarizability'') line"
    using dipole_rules_parse [OF d] opened by simp
  then have flag: "parse st' \<longleftrightarrow>
      \<not> py_in (lit ''Isotropic polarizability'') line \<or> py_in (lit ''INNER ENERGY'') line"
    using thermo_rules_registers [OF t] by simp
  have after: "scan (initial smiles) (pre @ [line]) = Inr st'"
    by (simp add: scan_append pre body)
  show ?thesis
  proof (intro conjI impI)
    assume "py_in (lit ''Magnitude (Debye)'') line \<and>
      (\<forall>l\<in>set post. \<not> py_in (lit ''Magnitude (Debye)'') l)"
    then show "m ''Dipole Moment'' = Some (split line ! 3)" using moment by blast
  next
    assume "py_in (lit ''Isotropic polarizability'') line \<and>
      (\<forall>l\<in>set post. \<not> py_in (lit ''Isotropic polarizability'') l)"
    then show "m ''polarizability'' = Some (split line ! 3)" using polar by blast
  next
    show "\<exists>st'. scan (initial smiles) (pre @ [line]) = Inr st' \<and>
        (parse st' \<longleftrightarrow>
           \<not> py_in (lit ''Isotropic polarizability'') line \<or> py_in (lit ''INNER ENERGY'') line)"
      using after flag by blast
  qed
qed

text \<open>
  C7. Let \<open>orca_reader\<close> return \<open>m\<close> for a report, and let a line of the report be
  reached with the flag \<open>parse\<close> set, or itself hold \<open>INNER ENERGY\<close>, while no orbital
  table is being read and the line holds neither an orbital header nor
  \<open>Isotropic polarizability\<close>. For each of the five phrases, if the line holds it and no
  later line does, \<open>m\<close> binds \<open>U\<close> and \<open>H\<close> to token 3, \<open>S\<close> to token 4, \<open>G\<close> to
  token 5, and \<open>A\<close>, \<open>B\<close>, \<open>C\<close> to tokens 4, 5, 6 of the line. After the line the flag
  is still set.
\<close>

theorem thermo_section:
  assumes read: "open_readlines E (out_name nb) = Inr (pre @ line # post)"
    and ret: "orca_reader E smiles nb = Inr m"
    and pre: "scan (initial smiles) pre = Inr st"
    and opened: "parse st \<or> py_in (lit ''INNER ENERGY'') line"
    and idle: "\<not> (parse st \<and> orbitals_start st)"
    and plain: "\<not> py_in (lit ''ORBITAL ENERGIES'') line" "\<not> py_in (lit ''E(Eh)'') line"
      "\<not> py_in (lit ''Isotropic polarizability'') line"
  shows "(py_in (lit ''Total thermal energy'') line \<and>
            (\<forall>l\<in>set post. \<not> py_in (lit ''Total thermal energy'') l) \<longrightarrow>
          m ''U'' = Some (split line ! 3)) \<and>
         (py_in (lit ''Total Enthalpy'') line \<and>
            (\<forall>l\<in>set post. \<not> py_in (lit ''Total Enthalpy'') l) \<longrightarrow>
          m ''H'' = Some (split line ! 3)) \<and>
         (py_in (lit ''Final entropy term'') line \<and>
            (\<forall>l\<in>set post. \<not> py_in (lit ''Final entropy term'') l) \<longrightarrow>
          m ''S'' = Some (split line ! 4)) \<and>
         (py_in (lit ''Final Gibbs'') line \<and>
            (\<forall>l\<in>set post. \<not> py_in (lit ''Final Gibbs'') l) \<longrightarrow>
          m ''G'' = Some (split line ! 5)) \<and>
         (py_in (lit ''Rotational constants in cm-1:'') line \<and>
            (\<forall>l\<in>set post. \<not> py_in (lit ''Rotational constants in cm-1:'') l) \<longrightarrow>
          m ''A'' = Some (split line ! 4) \<and> m ''B'' = Some (split line ! 5) \<and>
          m ''C'' = Some (split line ! 6)) \<and>
         (\<exists>st'. scan (initial smiles) (pre @ [line]) = Inr st' \<and> parse st')"
proof -
  from read ret pre obtain st' stf where
    body: "loop_body st line = Inr st'" and post: "scan st' post = Inr stf" and m: "m = props stf"
    by (rule reader_cut)
  from body idle plain(1,2) obtain s2 where
    d: "dipole_rules st line = Inr s2" and t: "thermo_rules s2 line = Inr st'"
    by (rule loop_body_rules)
  have "parse s2 \<longleftrightarrow> parse st \<or> py_in (lit ''DIPOLE MOMENT'') line"
    using dipole_rules_parse [OF d] plain(3) by simp
  with opened have o2: "parse s2 \<or> py_in (lit ''INNER ENERGY'') line" by blast
  note fire = thermo_rules_fire [OF t o2]
  have after: "scan (initial smiles) (pre @ [line]) = Inr st'"
    by (simp add: scan_append pre body)
  show ?thesis
  proof (intro conjI impI)
    assume a: "py_in (lit ''Total thermal energy'') line \<and>
      (\<forall>l\<in>set post. \<not> py_in (lit ''Total thermal energy'') l)"
    have "props stf ''U'' = props st' ''U''"
      by (rule kept_after [OF post value_phrases_member(3) not_columns(3) conjunct2 [OF a]])
    then show "m ''U'' = Some (split line ! 3)" using fire(2) [OF conjunct1 [OF a]] by (simp add: m)
  next
    assume a: "py_in (lit ''Total Enthalpy'') line \<and>
      (\<forall>l\<in>set post. \<not> py_in (lit ''Total Enthalpy'') l)"
    have "props stf ''H'' = props st' ''H''"
      by (rule kept_after [OF post value_phrases_member(4) not_columns(4) conjunct2 [OF a]])
    then show "m ''H'' = Some (split line ! 3)" using fire(3) [OF conjunct1 [OF a]] by (simp add: m)
  next
    assume a: "py_in (lit ''Final entropy term'') line \<and>
      (\<forall>l\<in>set post. \<not> py_in (lit ''Final entropy term'') l)"
    have "props stf ''S'' = props st' ''S''"
      by (rule kept_after [OF post value_phrases_member(5) not_columns(5) conjunct2 [OF a]])
    then show "m ''S'' = Some (split line ! 4)" using fire(4) [OF conjunct1 [OF a]] by (simp add: m)
  next
    assume a: "py_in (lit ''Final Gibbs'') line \<and>
      (\<forall>l\<in>set post. \<not> py_in (lit ''Final Gibbs'') l)"
    have "props stf ''G'' = props st' ''G''"
      by (rule kept_after [OF post value_phrases_member(6) not_columns(6) conjunct2 [OF a]])
    then show "m ''G'' = Some (split line ! 5)" using fire(5) [OF conjunct1 [OF a]] by (simp add: m)
  next
    assume a: "py_in (lit ''Rotational constants in cm-1:'') line \<and>
      (\<forall>l\<in>set post. \<not> py_in (lit ''Rotational constants in cm-1:'') l)"
    note abc = fire(6) [OF conjunct1 [OF a]]
    have "props stf ''A'' = props st' ''A''"
      by (rule kept_after [OF post value_phrases_member(7) not_columns(7) conjunct2 [OF a]])
    then show "m ''A'' = Some (split line ! 4)" using abc by (simp add: m)
    have "props stf ''B'' = props st' ''B''"
      by (rule kept_after [OF post value_phrases_member(8) not_columns(7) conjunct2 [OF a]])
    then show "m ''B'' = Some (split line ! 5)" using abc by (simp add: m)
    have "props stf ''C'' = props st' ''C''"
      by (rule kept_after [OF post value_phrases_member(9) not_columns(7) conjunct2 [OF a]])
    then show "m ''C'' = Some (split line ! 6)" using abc by (simp add: m)
  next
    show "\<exists>st'. scan (initial smiles) (pre @ [line]) = Inr st' \<and> parse st'"
      using after fire(1) by blast
  qed
qed

lemma sample_before_magnitude:
  "\<exists>st. scan (initial smiles) (map (\<lambda>l. lit l @ [10]) (take 5 sample_report)) = Inr st \<and>
     parse st \<and> \<not> orbitals_start st"
  by (simp add: eval_rules sample_report_def initial_def)

lemma sample_before_isotropic:
  "\<exists>st. scan (initial smiles) (map (\<lambda>l. lit l @ [10]) (take 6 sample_report)) = Inr st \<and>
     parse st \<and> \<not> orbitals_start st"
  by (simp add: eval_rules sample_report_def initial_def)

lemma sample_before_thermal:
  "\<exists>st. scan (initial smiles) (map (\<lambda>l. lit l @ [10]) (take 8 sample_report)) = Inr st \<and>
     parse st \<and> \<not> orbitals_start st"
  by (simp add: eval_rules sample_report_def initial_def)

lemma sample_before_rotational:
  "\<exists>st. scan (initial smiles) (map (\<lambda>l. lit l @ [10]) (take 12 sample_report)) = Inr st \<and>
     parse st \<and> \<not> orbitals_start st"
  by (simp add: eval_rules sample_report_def initial_def)

lemma map_cut:
  assumes "n < length xs"
  shows "map f xs = map f (take n xs) @ f (xs ! n) # map f (drop (Suc n) xs)"
proof -
  have "map f xs = map f (take n xs @ xs ! n # drop (Suc n) xs)"
    using id_take_nth_drop [OF assms] by simp
  then show ?thesis by simp
qed

lemma sample_read_cut:
  assumes "n < 13"
  shows "open_readlines sample_env (out_name 0) =
     Inr (map (\<lambda>l. lit l @ [10]) (take n sample_report) @ (lit (sample_report ! n) @ [10]) #
          map (\<lambda>l. lit l @ [10]) (drop (Suc n) sample_report))"
proof -
  have "n < length sample_report" using assms by (simp add: sample_report_def)
  from map_cut [OF this, of "\<lambda>l. lit l @ [10]"] show ?thesis
    by (simp only: sample_read_0)
qed

text \<open>
  The sample report: \<open>Magnitude (Debye) : 1.85\<close> gives the dipole moment \<open>1.85\<close>, and
  the line after it the polarizability.
\<close>

theorem dipole_section_witness:
  "orca_reader sample_env (lit ''O'') 0 = Inr (sample_props (lit ''O'')) \<and>
   sample_report ! 5 = ''Magnitude (Debye) : 1.85'' \<and>
   sample_props (lit ''O'') ''Dipole Moment'' = Some (split (lit (sample_report ! 5) @ [10]) ! 3) \<and>
   split (lit (sample_report ! 5) @ [10]) ! 3 = lit ''1.85'' \<and>
   sample_report ! 6 = ''Isotropic polarizability : 9.72'' \<and>
   sample_props (lit ''O'') ''polarizability'' = Some (split (lit (sample_report ! 6) @ [10]) ! 3) \<and>
   split (lit (sample_report ! 6) @ [10]) ! 3 = lit ''9.72''"
proof -
  from sample_before_magnitude [of "lit ''O''"] obtain st5 where
    st5: "scan (initial (lit ''O'')) (map (\<lambda>l. lit l @ [10]) (take 5 sample_report)) = Inr st5"
    "parse st5" "\<not> orbitals_start st5" by blast
  from sample_before_isotropic [of "lit ''O''"] obtain st6 where
    st6: "scan (initial (lit ''O'')) (map (\<lambda>l. lit l @ [10]) (take 6 sample_report)) = Inr st6"
    "parse st6" "\<not> orbitals_start st6" by blast
  have l5: "sample_report ! 5 = ''Magnitude (Debye) : 1.85''"
    and l6: "sample_report ! 6 = ''Isotropic polarizability : 9.72''"
    by (simp_all add: sample_report_def)
  have moment: "sample_props (lit ''O'') ''Dipole Moment'' =
      Some (split (lit (sample_report ! 5) @ [10]) ! 3)"
    using dipole_section [OF sample_read_cut [of 5] sample_reader_0 st5(1), THEN conjunct1] st5(2,3)
    by (simp add: l5 sample_report_def lit_def)
  have polar: "sample_props (lit ''O'') ''polarizability'' =
      Some (split (lit (sample_report ! 6) @ [10]) ! 3)"
    using dipole_section [OF sample_read_cut [of 6] sample_reader_0 st6(1),
        THEN conjunct2, THEN conjunct1] st6(2,3)
    by (simp add: l6 sample_report_def lit_def)
  have v5: "split (lit (sample_report ! 5) @ [10]) ! 3 = lit ''1.85''"
    and v6: "split (lit (sample_report ! 6) @ [10]) ! 3 = lit ''9.72''"
    by (simp_all add: l5 l6 split_def is_space_def lit_def)
  show ?thesis
    by (intro conjI sample_reader_0 l5 l6 moment polar v5 v6)
qed

text \<open>
  The sample report: the line of \<open>Total thermal energy\<close> and the line of the rotational
  constants.
\<close>

theorem thermo_section_witness:
  "orca_reader sample_env (lit ''O'') 0 = Inr (sample_props (lit ''O'')) \<and>
   sample_report ! 8 = ''Total thermal energy -76.29 Eh'' \<and>
   sample_props (lit ''O'') ''U'' = Some (split (lit (sample_report ! 8) @ [10]) ! 3) \<and>
   split (lit (sample_report ! 8) @ [10]) ! 3 = lit ''-76.29'' \<and>
   sample_report ! 12 = ''Rotational constants in cm-1: 27.4 14.6 9.5'' \<and>
   sample_props (lit ''O'') ''A'' = Some (split (lit (sample_report ! 12) @ [10]) ! 4) \<and>
   sample_props (lit ''O'') ''B'' = Some (split (lit (sample_report ! 12) @ [10]) ! 5) \<and>
   sample_props (lit ''O'') ''C'' = Some (split (lit (sample_report ! 12) @ [10]) ! 6) \<and>
   split (lit (sample_report ! 12) @ [10]) ! 6 = lit ''9.5''"
proof -
  from sample_before_thermal [of "lit ''O''"] obtain st8 where
    st8: "scan (initial (lit ''O'')) (map (\<lambda>l. lit l @ [10]) (take 8 sample_report)) = Inr st8"
    "parse st8" "\<not> orbitals_start st8" by blast
  from sample_before_rotational [of "lit ''O''"] obtain st12 where
    st12: "scan (initial (lit ''O'')) (map (\<lambda>l. lit l @ [10]) (take 12 sample_report)) = Inr st12"
    "parse st12" "\<not> orbitals_start st12" by blast
  have l8: "sample_report ! 8 = ''Total thermal energy -76.29 Eh''"
    and l12: "sample_report ! 12 = ''Rotational constants in cm-1: 27.4 14.6 9.5''"
    by (simp_all add: sample_report_def)
  have u: "sample_props (lit ''O'') ''U'' = Some (split (lit (sample_report ! 8) @ [10]) ! 3)"
    using thermo_section [OF sample_read_cut [of 8] sample_reader_0 st8(1), THEN conjunct1] st8(2,3)
    by (simp add: l8 sample_report_def lit_def)
  have abc: "sample_props (lit ''O'') ''A'' = Some (split (lit (sample_report ! 12) @ [10]) ! 4) \<and>
      sample_props (lit ''O'') ''B'' = Some (split (lit (sample_report ! 12) @ [10]) ! 5) \<and>
      sample_props (lit ''O'') ''C'' = Some (split (lit (sample_report ! 12) @ [10]) ! 6)"
    using thermo_section [OF sample_read_cut [of 12] sample_reader_0 st12(1),
        THEN conjunct2, THEN conjunct2, THEN conjunct2, THEN conjunct2, THEN conjunct1] st12(2,3)
    by (simp add: l12 sample_report_def lit_def)
  have v8: "split (lit (sample_report ! 8) @ [10]) ! 3 = lit ''-76.29''"
    and v12: "split (lit (sample_report ! 12) @ [10]) ! 6 = lit ''9.5''"
    by (simp_all add: l8 l12 split_def is_space_def lit_def)
  show ?thesis
    by (intro conjI sample_reader_0 l8 l12 u v8 v12 abc [THEN conjunct1]
        abc [THEN conjunct2, THEN conjunct1] abc [THEN conjunct2, THEN conjunct2])
qed

lemma columns_step:
  "py_in (lit ''E(Eh)'') columns \<Longrightarrow> \<not> py_in (lit ''ORBITAL ENERGIES'') columns \<Longrightarrow>
   loop_body st columns = Inr (st\<lparr>orbitals_start := True\<rparr>)"
  by (simp add: loop_body_def)

lemma header_step:
  "py_in (lit ''ORBITAL ENERGIES'') header \<Longrightarrow> loop_body st header = Inr (st\<lparr>parse := True\<rparr>)"
  by (simp add: loop_body_def)

lemma orbital_row_occupied:
  assumes "parse st" "orbitals_start st" "4 \<le> length (split row)"
    and "float_gt_zero (split row ! 1) = Inr True"
  shows "orbital_row st row =
    Inr (st\<lparr>props := (props st)(''LUMO (Eh)'' \<mapsto> split row ! 2, ''LUMO (eV)'' \<mapsto> split row ! 3,
                                ''HOMO (Eh)'' \<mapsto> split row ! 2, ''HOMO (eV)'' \<mapsto> split row ! 3),
            homo_Eh := Some (split row ! 2), homo_eV := Some (split row ! 3)\<rparr>)"
  using assms by (simp add: orbital_row_def item_def Let_def)

lemma orbital_row_virtual:
  assumes "parse st" "orbitals_start st" "4 \<le> length (split row)"
    and "float_gt_zero (split row ! 1) = Inr False"
    and "homo_Eh st = Some h_Eh" "homo_eV st = Some h_eV"
  shows "orbital_row st row =
    Inr (st\<lparr>props := (props st)(''LUMO (Eh)'' \<mapsto> split row ! 2, ''LUMO (eV)'' \<mapsto> split row ! 3,
                                ''HOMO (Eh)'' \<mapsto> h_Eh, ''HOMO (eV)'' \<mapsto> h_eV),
            parse := False, orbitals_start := False\<rparr>)"
  using assms by (simp add: orbital_row_def item_def Let_def)

lemma occupied_step:
  assumes body: "loop_body st row = Inr st'"
    and flags: "parse st" "orbitals_start st"
    and row: "table_row row" "float_gt_zero (split row ! 1) = Inr True"
  shows "parse st' \<and> orbitals_start st' \<and>
    homo_Eh st' = Some (split row ! 2) \<and> homo_eV st' = Some (split row ! 3)"
  using body
proof (cases rule: loop_body_cases)
  case header
  then show ?thesis using row(1) by (simp add: table_row_def)
next
  case columns
  then show ?thesis using row(1) by (simp add: table_row_def)
next
  case (rules s1 s2)
  have len: "4 \<le> length (split row)" using row(1) by (simp add: table_row_def)
  have iso: "\<not> py_in (lit ''Isotropic polarizability'') row" using row(1) by (simp add: table_row_def)
  have s1: "parse s1 \<and> orbitals_start s1 \<and>
      homo_Eh s1 = Some (split row ! 2) \<and> homo_eV s1 = Some (split row ! 3)"
    using rules(3) orbital_row_occupied [OF flags len row(2)] flags by auto
  have s2: "parse s2 \<and> orbitals_start s2 \<and>
      homo_Eh s2 = Some (split row ! 2) \<and> homo_eV s2 = Some (split row ! 3)"
    using dipole_rules_registers [OF rules(4)] dipole_rules_parse [OF rules(4)] iso s1 by simp
  show ?thesis
    using thermo_rules_registers [OF rules(5)] s2 by simp
qed

lemma occupied_rows:
  assumes "scan st occupied = Inr st'"
    and "parse st" "orbitals_start st"
    and "\<forall>row\<in>set occupied. table_row row \<and> float_gt_zero (split row ! 1) = Inr True"
  shows "parse st' \<and> orbitals_start st' \<and>
    (occupied \<noteq> [] \<longrightarrow>
       homo_Eh st' = Some (split (last occupied) ! 2) \<and>
       homo_eV st' = Some (split (last occupied) ! 3))"
  using assms
proof (induction occupied arbitrary: st)
  case Nil
  then show ?case by simp
next
  case (Cons row occupied)
  from Cons.prems(1) obtain s where s: "loop_body st row = Inr s" and r: "scan s occupied = Inr st'"
    unfolding scan_Cons_Inr by blast
  have row: "table_row row" "float_gt_zero (split row ! 1) = Inr True"
    using Cons.prems(4) by simp_all
  have rest: "\<forall>row\<in>set occupied. table_row row \<and> float_gt_zero (split row ! 1) = Inr True"
    using Cons.prems(4) by simp
  note step = occupied_step [OF s Cons.prems(2,3) row]
  from step have ps: "parse s" and os: "orbitals_start s" by simp_all
  note ih = Cons.IH [OF r ps os rest]
  show ?case
  proof (cases "occupied = []")
    case True
    then have "st' = s" using r by simp
    then show ?thesis using step True by simp
  next
    case False
    then show ?thesis using ih by simp
  qed
qed

lemma orbital_keys_apart:
  "''HOMO (Eh)'' \<notin> {''Dipole Moment'', ''polarizability''}"
  "''HOMO (eV)'' \<notin> {''Dipole Moment'', ''polarizability''}"
  "''LUMO (Eh)'' \<notin> {''Dipole Moment'', ''polarizability''}"
  "''LUMO (eV)'' \<notin> {''Dipole Moment'', ''polarizability''}"
  "''HOMO (Eh)'' \<notin> {''U'', ''H'', ''S'', ''G'', ''A'', ''B'', ''C''}"
  "''HOMO (eV)'' \<notin> {''U'', ''H'', ''S'', ''G'', ''A'', ''B'', ''C''}"
  "''LUMO (Eh)'' \<notin> {''U'', ''H'', ''S'', ''G'', ''A'', ''B'', ''C''}"
  "''LUMO (eV)'' \<notin> {''U'', ''H'', ''S'', ''G'', ''A'', ''B'', ''C''}"
  by simp_all

lemma virtual_step:
  assumes body: "loop_body st row = Inr st'"
    and flags: "parse st" "orbitals_start st"
    and row: "table_row row" "float_gt_zero (split row ! 1) = Inr False"
    and homo: "homo_Eh st = Some h_Eh" "homo_eV st = Some h_eV"
  shows "props st' ''HOMO (Eh)'' = Some h_Eh \<and> props st' ''HOMO (eV)'' = Some h_eV \<and>
    props st' ''LUMO (Eh)'' = Some (split row ! 2) \<and> props st' ''LUMO (eV)'' = Some (split row ! 3) \<and>
    \<not> orbitals_start st'"
  using body
proof (cases rule: loop_body_cases)
  case header
  then show ?thesis using row(1) by (simp add: table_row_def)
next
  case columns
  then show ?thesis using row(1) by (simp add: table_row_def)
next
  case (rules s1 s2)
  have len: "4 \<le> length (split row)" using row(1) by (simp add: table_row_def)
  have s1: "props s1 ''HOMO (Eh)'' = Some h_Eh \<and> props s1 ''HOMO (eV)'' = Some h_eV \<and>
      props s1 ''LUMO (Eh)'' = Some (split row ! 2) \<and> props s1 ''LUMO (eV)'' = Some (split row ! 3) \<and>
      \<not> orbitals_start s1"
    using rules(3) orbital_row_virtual [OF flags len row(2) homo] by auto
  have "props s2 ''HOMO (Eh)'' = props s1 ''HOMO (Eh)''" "props s2 ''HOMO (eV)'' = props s1 ''HOMO (eV)''"
    "props s2 ''LUMO (Eh)'' = props s1 ''LUMO (Eh)''" "props s2 ''LUMO (eV)'' = props s1 ''LUMO (eV)''"
    by (rule dipole_rules_frame [OF rules(4)], rule orbital_keys_apart)+
  moreover have "props st' ''HOMO (Eh)'' = props s2 ''HOMO (Eh)''"
    "props st' ''HOMO (eV)'' = props s2 ''HOMO (eV)''"
    "props st' ''LUMO (Eh)'' = props s2 ''LUMO (Eh)''" "props st' ''LUMO (eV)'' = props s2 ''LUMO (eV)''"
    by (rule thermo_rules_frame [OF rules(5)], rule orbital_keys_apart)+
  moreover have "orbitals_start st' = orbitals_start s1"
    using dipole_rules_registers [OF rules(4)] thermo_rules_registers [OF rules(5)] by simp
  ultimately show ?thesis using s1 by simp
qed

lemma header_last:
  assumes "scan s0 pre = Inr st" "pre \<noteq> []" "py_in (lit ''ORBITAL ENERGIES'') (last pre)"
  shows "parse st"
proof -
  have "scan s0 (butlast pre @ [last pre]) = Inr st" using assms(1,2) by simp
  then obtain s where "loop_body s (last pre) = Inr st"
    unfolding scan_append_Inr [of _ "butlast pre"] by (auto simp: ebind_eq_Inr)
  then show ?thesis using header_step [OF assms(3), of s] by auto
qed

text \<open>
  C1. Let \<open>orca_reader\<close> return \<open>m\<close> for a report in which a line holding
  \<open>ORBITAL ENERGIES\<close> comes right before the column header \<open>E(Eh)\<close>, or the flag \<open>parse\<close>
  that line sets is still set when the column header is reached, and the column header
  is followed by one or more rows whose occupation is greater than zero, then by a row
  whose occupation is not, and by no further column header. Then \<open>m\<close> binds
  \<open>HOMO (Eh)\<close> and \<open>HOMO (eV)\<close> to tokens 2 and 3 of the last row with positive
  occupation, and \<open>LUMO (Eh)\<close> and \<open>LUMO (eV)\<close> to tokens 2 and 3 of the row that
  follows it; after that row \<open>orbitals_start\<close> is cleared, so no further line is read
  as an orbital row.
\<close>

theorem orbital_section:
  assumes read: "open_readlines E (out_name nb) = Inr (pre @ [columns] @ occupied @ [virtual] @ post)"
    and ret: "orca_reader E smiles nb = Inr m"
    and pre: "scan (initial smiles) pre = Inr st"
    and opened: "parse st \<or> (pre \<noteq> [] \<and> py_in (lit ''ORBITAL ENERGIES'') (last pre))"
    and columns: "py_in (lit ''E(Eh)'') columns" "\<not> py_in (lit ''ORBITAL ENERGIES'') columns"
    and occupied: "occupied \<noteq> []"
      "\<forall>row\<in>set occupied. table_row row \<and> float_gt_zero (split row ! 1) = Inr True"
    and virtual: "table_row virtual" "float_gt_zero (split virtual ! 1) = Inr False"
    and post: "\<forall>l\<in>set post. \<not> py_in (lit ''E(Eh)'') l"
  shows "m ''HOMO (Eh)'' = Some (split (last occupied) ! 2) \<and>
         m ''HOMO (eV)'' = Some (split (last occupied) ! 3) \<and>
         m ''LUMO (Eh)'' = Some (split virtual ! 2) \<and>
         m ''LUMO (eV)'' = Some (split virtual ! 3) \<and>
         (\<exists>st'. scan (initial smiles) (pre @ [columns] @ occupied @ [virtual]) = Inr st' \<and>
            \<not> orbitals_start st')"
proof -
  from ret read obtain stf where
    sc: "scan (initial smiles) (pre @ [columns] @ occupied @ [virtual] @ post) = Inr stf"
    and m: "m = props stf"
    unfolding orca_reader_Inr by auto
  have parse: "parse st" using opened header_last [OF pre] by blast
  from sc pre have c1: "scan st ([columns] @ occupied @ [virtual] @ post) = Inr stf"
    unfolding scan_append_Inr [of _ pre] by auto
  let ?s0 = "st\<lparr>orbitals_start := True\<rparr>"
  have c2: "scan ?s0 (occupied @ [virtual] @ post) = Inr stf"
    using c1 columns_step [OF columns, of st] by simp
  then obtain so where o: "scan ?s0 occupied = Inr so"
    and c3: "scan so ([virtual] @ post) = Inr stf"
    unfolding scan_append_Inr [of _ occupied] by blast
  from c3 obtain sv where v: "loop_body so virtual = Inr sv" and p: "scan sv post = Inr stf"
    by (auto simp: ebind_eq_Inr)
  have flags0: "parse ?s0" "orbitals_start ?s0" using parse by simp_all
  from occupied_rows [OF o flags0 occupied(2)] occupied(1)
  have so: "parse so" "orbitals_start so"
    "homo_Eh so = Some (split (last occupied) ! 2)" "homo_eV so = Some (split (last occupied) ! 3)"
    by simp_all
  note sv = virtual_step [OF v so(1,2) virtual so(3,4)]
  have idle: "\<not> orbitals_start sv" using sv by simp
  have keep: "props stf k = props sv k" if "(k, ''E(Eh)'') \<in> set value_phrases" for k
    by (rule scan_absent [OF p that post]) (rule idle)
  have after: "scan (initial smiles) (pre @ [columns] @ occupied @ [virtual]) = Inr sv"
    using pre columns_step [OF columns, of st] o v
    by (simp add: scan_append)
  show ?thesis
  proof (intro conjI)
    show "m ''HOMO (Eh)'' = Some (split (last occupied) ! 2)"
      using keep [OF value_phrases_member(10)] sv by (simp add: m)
    show "m ''HOMO (eV)'' = Some (split (last occupied) ! 3)"
      using keep [OF value_phrases_member(11)] sv by (simp add: m)
    show "m ''LUMO (Eh)'' = Some (split virtual ! 2)"
      using keep [OF value_phrases_member(12)] sv by (simp add: m)
    show "m ''LUMO (eV)'' = Some (split virtual ! 3)"
      using keep [OF value_phrases_member(13)] sv by (simp add: m)
    show "\<exists>st'. scan (initial smiles) (pre @ [columns] @ occupied @ [virtual]) = Inr st' \<and>
        \<not> orbitals_start st'"
      using after idle by blast
  qed
qed

lemma sample_after_header:
  "\<exists>st. scan (initial smiles) [lit (sample_report ! 0) @ [10]] = Inr st"
  by (simp add: eval_rules sample_report_def initial_def)

text \<open>
  The two rows \<open>0 2.0000 -0.123 -3.35\<close> and \<open>1 0.0000 0.045 1.22\<close> under the two
  headers.
\<close>

theorem orbital_section_witness:
  "orca_reader sample_env (lit ''O'') 3 = Inr (orbital_props (lit ''O'')) \<and>
   take 4 sample_report =
     [''ORBITAL ENERGIES'', ''  NO   OCC          E(Eh)            E(eV)'',
      ''   0   2.0000 -0.123 -3.35'', ''   1   0.0000 0.045 1.22''] \<and>
   orbital_props (lit ''O'') ''HOMO (Eh)'' = Some (lit ''-0.123'') \<and>
   orbital_props (lit ''O'') ''HOMO (eV)'' = Some (lit ''-3.35'') \<and>
   orbital_props (lit ''O'') ''LUMO (Eh)'' = Some (lit ''0.045'') \<and>
   orbital_props (lit ''O'') ''LUMO (eV)'' = Some (lit ''1.22'')"
proof -
  from sample_after_header [of "lit ''O''"] obtain st where
    st: "scan (initial (lit ''O'')) [lit (sample_report ! 0) @ [10]] = Inr st"
    by blast
  have h: "parse st \<or> ([lit (sample_report ! 0) @ [10]] \<noteq> [] \<and>
      py_in (lit ''ORBITAL ENERGIES'') (last [lit (sample_report ! 0) @ [10]]))"
    by (simp add: sample_report_def lit_def)
  let ?columns = "lit ''  NO   OCC          E(Eh)            E(eV)'' @ [10]"
  let ?occupied = "[lit ''   0   2.0000 -0.123 -3.35'' @ [10]]"
  let ?virtual = "lit ''   1   0.0000 0.045 1.22'' @ [10]"
  have read: "open_readlines sample_env (out_name 3) =
      Inr ([lit (sample_report ! 0) @ [10]] @ [?columns] @ ?occupied @ [?virtual] @ [])"
    using sample_read_3 by (simp add: sample_report_def)
  have c: "py_in (lit ''E(Eh)'') ?columns" "\<not> py_in (lit ''ORBITAL ENERGIES'') ?columns"
    by (simp_all add: lit_def)
  have o: "\<forall>row\<in>set ?occupied. table_row row \<and> float_gt_zero (split row ! 1) = Inr True"
    by (simp add: table_row_def eval_rules)
  have v: "table_row ?virtual" "float_gt_zero (split ?virtual ! 1) = Inr False"
    by (simp_all add: table_row_def eval_rules)
  have tokens: "split (last ?occupied) ! 2 = lit ''-0.123''" "split (last ?occupied) ! 3 = lit ''-3.35''"
    "split ?virtual ! 2 = lit ''0.045''" "split ?virtual ! 3 = lit ''1.22''"
    by (simp_all add: split_def is_space_def lit_def)
  note th = orbital_section [OF read sample_reader_3 st h c _ o v]
  have "orbital_props (lit ''O'') ''HOMO (Eh)'' = Some (lit ''-0.123'')"
    "orbital_props (lit ''O'') ''HOMO (eV)'' = Some (lit ''-3.35'')"
    "orbital_props (lit ''O'') ''LUMO (Eh)'' = Some (lit ''0.045'')"
    "orbital_props (lit ''O'') ''LUMO (eV)'' = Some (lit ''1.22'')"
    using th tokens by simp_all
  moreover have "take 4 sample_report =
     [''ORBITAL ENERGIES'', ''  NO   OCC          E(Eh)            E(eV)'',
      ''   0   2.0000 -0.123 -3.35'', ''   1   0.0000 0.045 1.22'']"
    by (simp add: sample_report_def)
  ultimately show ?thesis using sample_reader_3 [of "lit ''O''"] by blast
qed

end
